theory Spec2Isabelle
  imports Complex_Main
begin

section \<open>Data model\<close>

text \<open>
  JavaScript numbers are modelled as exact reals: every arithmetic step of the engine is
  taken without floating-point rounding error. Strings (node ids, component kinds) are
  \<open>string\<close>. The catalog \<open>COMPONENT_MAP\<close> lives in
  \<open>constants/componentDefinitions\<close>; every function that reads it takes it as the
  parameter \<open>cmap\<close>, a partial map from component kind to its definition. Of a catalog
  entry, a node and an edge, the fields the engine reads are kept; display fields (names,
  icons, positions) are left out. No function of the engine throws: a lookup that finds
  nothing is a branch (\<open>continue\<close>, \<open>?? default\<close>) of the function itself, so the
  model needs no error value.
\<close>

datatype ComponentCategory =
  clients | loadbalancing | compute | storage | messaging | observability | network | ai

datatype ConsistencyModel = strong | eventual | causal

datatype CAPAlignment = CP | AP | CA

record ComponentDefinition =
  category :: ComponentCategory
  maxThroughput :: real
  baseLatency :: real
  failureRateAtCapacity :: real
  isHorizontallyScalable :: bool
  availabilitySLA :: real
  consistencyModel :: ConsistencyModel
  capAlignment :: CAPAlignment
  costPerInstancePerMonth :: real

type_synonym Catalog = "string \<rightharpoonup> ComponentDefinition"

record NodeConfig =
  label :: string
  replicas :: real
  region :: string

record SystemNodeData =
  componentType :: string
  config :: NodeConfig
  isFailed :: bool
  isAI :: bool

record Node =
  node_id :: string
  data :: SystemNodeData

record Edge =
  edge_id :: string
  source :: string
  target :: string

section \<open>Load propagation (SimulationEngine.propagateLoad)\<close>

text \<open>\<open>loadMap.get(k) || 0\<close>: a missing entry reads as 0.\<close>

definition getOr0 :: "(string \<rightharpoonup> real) \<Rightarrow> string \<Rightarrow> real" where
  "getOr0 m k = (case m k of None \<Rightarrow> 0 | Some v \<Rightarrow> v)"

text \<open>
  The adjacency map of \<open>propagateLoad\<close>: every node id is given the empty list, then
  every edge whose source is a key appends its target.
\<close>

definition pl_adj :: "Node list \<Rightarrow> Edge list \<Rightarrow> (string \<rightharpoonup> string list)" where
  "pl_adj nodes edges =
     fold (\<lambda>e adj. case adj (source e) of
                      Some ts \<Rightarrow> adj(source e \<mapsto> ts @ [target e])
                    | None \<Rightarrow> adj)
          edges
          (fold (\<lambda>n adj. adj(node_id n \<mapsto> [])) nodes Map.empty)"

definition pl_inDegree :: "Node list \<Rightarrow> Edge list \<Rightarrow> (string \<rightharpoonup> nat)" where
  "pl_inDegree nodes edges =
     fold (\<lambda>e deg. deg(target e \<mapsto> (case deg (target e) of None \<Rightarrow> 0 | Some d \<Rightarrow> d) + 1))
          edges
          (fold (\<lambda>n deg. deg(node_id n \<mapsto> 0)) nodes Map.empty)"

definition pl_sources :: "Node list \<Rightarrow> Edge list \<Rightarrow> Node list" where
  "pl_sources nodes edges =
     filter (\<lambda>n. (case pl_inDegree nodes edges (node_id n) of None \<Rightarrow> 0 | Some d \<Rightarrow> d) = 0) nodes"

record LoadState =
  st_queue :: "string list"
  st_visited :: "string list"
  st_loadMap :: "string \<rightharpoonup> real"

text \<open>The initial state: the load is split over the sources, which fill the queue.\<close>

definition pl_init :: "Node list \<Rightarrow> Edge list \<Rightarrow> real \<Rightarrow> LoadState" where
  "pl_init nodes edges trafficLoad =
     (let sources = pl_sources nodes edges;
          perSource = (if length sources > 0 then trafficLoad / real (length sources) else 0)
      in \<lparr> st_queue = map node_id sources,
           st_visited = [],
           st_loadMap = fold (\<lambda>src m. m(node_id src \<mapsto> perSource)) sources Map.empty \<rparr>)"

text \<open>Forwarding: every entry of \<open>neighbors\<close> receives \<open>perNeighbor\<close> on top of its entry.\<close>

definition forwardLoad :: "real \<Rightarrow> string list \<Rightarrow> (string \<rightharpoonup> real) \<Rightarrow> (string \<rightharpoonup> real)" where
  "forwardLoad perNeighbor neighbors m =
     fold (\<lambda>next m'. m'(next \<mapsto> getOr0 m' next + perNeighbor)) neighbors m"

text \<open>
  One iteration of the \<open>while (queue.length > 0)\<close> loop, for a non-empty queue. The
  set \<open>visited\<close> is kept as the list of its elements in insertion order, so the list
  records the order in which nodes were processed.
\<close>

definition propagateStep :: "(string \<rightharpoonup> string list) \<Rightarrow> LoadState \<Rightarrow> LoadState" where
  "propagateStep adj st =
     (case st_queue st of
        [] \<Rightarrow> st
      | nodeId # rest \<Rightarrow>
          if nodeId \<in> set (st_visited st) then st\<lparr>st_queue := rest\<rparr>
          else
            let incomingLoad = getOr0 (st_loadMap st) nodeId;
                neighbors = (case adj nodeId of None \<Rightarrow> [] | Some ts \<Rightarrow> ts)
            in if length neighbors > 0
               then \<lparr> st_queue = rest @ neighbors,
                      st_visited = st_visited st @ [nodeId],
                      st_loadMap = forwardLoad (incomingLoad / real (length neighbors)) neighbors (st_loadMap st) \<rparr>
               else \<lparr> st_queue = rest, st_visited = st_visited st @ [nodeId], st_loadMap = st_loadMap st \<rparr>)"

partial_function (option) propagateLoop :: "(string \<rightharpoonup> string list) \<Rightarrow> LoadState \<Rightarrow> LoadState option" where
  "propagateLoop adj st =
     (if st_queue st = [] then Some st else propagateLoop adj (propagateStep adj st))"

text \<open>Nodes without an entry after the loop are given load 0.\<close>

definition fillUnreached :: "Node list \<Rightarrow> (string \<rightharpoonup> real) \<Rightarrow> (string \<rightharpoonup> real)" where
  "fillUnreached nodes m =
     fold (\<lambda>n m'. if m' (node_id n) = None then m'(node_id n \<mapsto> 0) else m') nodes m"

definition propagateRun :: "Node list \<Rightarrow> Edge list \<Rightarrow> real \<Rightarrow> LoadState option" where
  "propagateRun nodes edges trafficLoad =
     propagateLoop (pl_adj nodes edges) (pl_init nodes edges trafficLoad)"

definition propagateLoad :: "Node list \<Rightarrow> Edge list \<Rightarrow> real \<Rightarrow> (string \<rightharpoonup> real) option" where
  "propagateLoad nodes edges trafficLoad =
     map_option (\<lambda>st. fillUnreached nodes (st_loadMap st)) (propagateRun nodes edges trafficLoad)"

declare propagateLoop.simps [code]

section \<open>Topology analysis (GraphTraversal)\<close>

text \<open>
  A JavaScript \<open>Map<string, string[]>\<close> is kept as an association list in
  insertion order with distinct keys. \<open>adj_push\<close> is
  \<open>if (!adj.has(k)) adj.set(k, []); adj.get(k).push(t)\<close>;
  \<open>adj_get\<close> is \<open>adj.get(k) || []\<close>.
\<close>

type_synonym AdjList = "(string \<times> string list) list"

fun adj_push :: "AdjList \<Rightarrow> string \<Rightarrow> string \<Rightarrow> AdjList" where
  "adj_push [] k t = [(k, [t])]"
| "adj_push ((k', ts) # rest) k t =
     (if k' = k then (k', ts @ [t]) # rest else (k', ts) # adj_push rest k t)"

definition adj_get :: "AdjList \<Rightarrow> string \<Rightarrow> string list" where
  "adj_get adj k = (case map_of adj k of None \<Rightarrow> [] | Some ts \<Rightarrow> ts)"

definition buildAdjacencyList :: "Edge list \<Rightarrow> AdjList" where
  "buildAdjacencyList edges = fold (\<lambda>e adj. adj_push adj (source e) (target e)) edges []"

definition buildReverseAdjacency :: "Edge list \<Rightarrow> AdjList" where
  "buildReverseAdjacency edges = fold (\<lambda>e rev. adj_push rev (target e) (source e)) edges []"

definition findSourceNodes :: "Node list \<Rightarrow> Edge list \<Rightarrow> string list" where
  "findSourceNodes nodes edges =
     map node_id (filter (\<lambda>n. node_id n \<notin> set (map target edges)) nodes)"

definition findSinkNodes :: "Node list \<Rightarrow> Edge list \<Rightarrow> string list" where
  "findSinkNodes nodes edges =
     map node_id (filter (\<lambda>n. node_id n \<notin> set (map source edges)) nodes)"

text \<open>\<open>def?.baseLatency ?? 10\<close>: a kind without a catalog entry counts 10 ms.\<close>

definition getNodeLatency :: "Catalog \<Rightarrow> Node \<Rightarrow> real" where
  "getNodeLatency cmap node =
     (case cmap (componentType (data node)) of None \<Rightarrow> 10 | Some d \<Rightarrow> baseLatency d)"

text \<open>
  \<open>new Map(nodes.map(n => [n.id, n])).get(k)\<close>: the last node with that id;
  \<open>nodes.find(n => n.id === k)\<close>: the first one.
\<close>

definition nodeMap_get :: "Node list \<Rightarrow> string \<Rightarrow> Node option" where
  "nodeMap_get nodes k = find (\<lambda>n. node_id n = k) (rev nodes)"

definition findNode :: "Node list \<Rightarrow> string \<Rightarrow> Node option" where
  "findNode nodes k = find (\<lambda>n. node_id n = k) nodes"

text \<open>
  The inner \<open>dfs\<close> of \<open>findCriticalPath\<close>. The mutable pair
  \<open>(bestPath, bestLatency)\<close> is threaded through as \<open>best\<close>; \<open>path\<close> and
  \<open>visited\<close> are restored by the source after each call (\<open>path.pop()\<close>,
  \<open>visited.delete(next)\<close>), so each call receives its own copy.
\<close>

function dfs :: "Catalog \<Rightarrow> Node list \<Rightarrow> AdjList \<Rightarrow> string \<Rightarrow> string list \<Rightarrow> real
                  \<Rightarrow> string list \<Rightarrow> string list \<times> real \<Rightarrow> string list \<times> real" where
  "dfs cmap nodes adj nodeId path totalLatency visited best =
     (case nodeMap_get nodes nodeId of
        None \<Rightarrow> best
      | Some node \<Rightarrow>
          (let latency = totalLatency + getNodeLatency cmap node;
               path' = path @ [nodeId];
               unvisited = filter (\<lambda>n. n \<notin> set visited) (adj_get adj nodeId)
           in if unvisited = []
              then (if latency > snd best then (path', latency) else best)
              else fold (\<lambda>next b. dfs cmap nodes adj next path' latency (next # visited) b)
                        unvisited best))"
  by pat_completeness auto
termination
proof (relation "measure (\<lambda>(cmap, nodes, adj, nodeId, path, totalLatency, visited, best).
                   card (\<Union>(set ` snd ` set adj) - set visited))")
  show "wf (measure (\<lambda>(cmap, nodes, adj, nodeId, path, totalLatency, visited, best).
                   card (\<Union>(set ` snd ` set adj) - set visited)))"
    by simp
next
  fix cmap :: Catalog and nodes :: "Node list" and adj :: AdjList and nodeId :: string
    and path :: "string list" and totalLatency :: real and visited :: "string list"
    and best :: "string list \<times> real" and x2 xa xb xc xd and b :: "string list \<times> real"
  assume xc: "xc = filter (\<lambda>n. n \<notin> set visited) (adj_get adj nodeId)" and xd: "xd \<in> set xc"
  have "xd \<in> \<Union>(set ` snd ` set adj)"
  proof (cases "map_of adj nodeId")
    case None
    then show ?thesis using xc xd by (simp add: adj_get_def)
  next
    case (Some ts)
    then have "(nodeId, ts) \<in> set adj" by (rule map_of_SomeD)
    moreover have "xd \<in> set ts" using xc xd Some by (simp add: adj_get_def)
    ultimately show ?thesis by force
  qed
  moreover have "xd \<notin> set visited" using xc xd by simp
  ultimately have "\<Union>(set ` snd ` set adj) - set (xd # visited) \<subset> \<Union>(set ` snd ` set adj) - set visited"
    by auto
  then have "card (\<Union>(set ` snd ` set adj) - set (xd # visited)) < card (\<Union>(set ` snd ` set adj) - set visited)"
    by (intro psubset_card_mono) auto
  then show "((cmap, nodes, adj, xd, xb, xa, xd # visited, b), cmap, nodes, adj, nodeId, path, totalLatency, visited, best)
      \<in> measure (\<lambda>(cmap, nodes, adj, nodeId, path, totalLatency, visited, best).
                   card (\<Union>(set ` snd ` set adj) - set visited))"
    by simp
qed

text \<open>The equation of \<open>dfs\<close> is unfolded on request only.\<close>

declare dfs.simps [simp del]

definition firstNodeFallback :: "Catalog \<Rightarrow> Node list \<Rightarrow> string list \<times> real" where
  "firstNodeFallback cmap nodes =
     (case nodes of [] \<Rightarrow> ([], 0) | n0 # _ \<Rightarrow> ([node_id n0], getNodeLatency cmap n0))"

definition findCriticalPath :: "Catalog \<Rightarrow> Node list \<Rightarrow> Edge list \<Rightarrow> string list \<times> real" where
  "findCriticalPath cmap nodes edges =
     (let adj = buildAdjacencyList edges;
          sources = findSourceNodes nodes edges
      in if length sources = 0 \<and> length nodes > 0 then firstNodeFallback cmap nodes
         else
           let best = fold (\<lambda>src b. dfs cmap nodes adj src [] 0 [src] b) sources ([], 0)
           in if length (fst best) = 0 \<and> length nodes > 0 then firstNodeFallback cmap nodes
              else best)"

text \<open>
  The reachability search of \<open>findSPOFs\<close> (both \<open>while\<close> loops have this
  shape): \<open>reachable\<close> is the set built so far, as a list.
\<close>

function bfsReach :: "AdjList \<Rightarrow> string list \<Rightarrow> string list \<Rightarrow> string list" where
  "bfsReach adj [] reachable = reachable"
| "bfsReach adj (cur # queue') reachable =
     (if cur \<in> set reachable then bfsReach adj queue' reachable
      else bfsReach adj
             (queue' @ filter (\<lambda>next. next \<notin> set (cur # reachable)) (adj_get adj cur))
             (cur # reachable))"
  by pat_completeness auto
termination
proof (relation "measures [\<lambda>(adj, q, r). card ((set q \<union> \<Union>(set ` snd ` set adj)) - set r),
                           \<lambda>(adj, q, r). length q]")
  show "wf (measures [\<lambda>(adj, q, r). card ((set q \<union> \<Union>(set ` snd ` set adj)) - set r),
                           \<lambda>(adj, q, r). length q])"
    by simp
next
  fix adj :: AdjList and cur :: string and queue' reachable :: "string list"
  assume "cur \<in> set reachable"
  have "(set queue' \<union> \<Union>(set ` snd ` set adj)) - set reachable
        \<subseteq> (set (cur # queue') \<union> \<Union>(set ` snd ` set adj)) - set reachable"
    by auto
  then have "card ((set queue' \<union> \<Union>(set ` snd ` set adj)) - set reachable)
        \<le> card ((set (cur # queue') \<union> \<Union>(set ` snd ` set adj)) - set reachable)"
    by (intro card_mono) auto
  then show "((adj, queue', reachable), adj, cur # queue', reachable)
       \<in> measures [\<lambda>(adj, q, r). card ((set q \<union> \<Union>(set ` snd ` set adj)) - set r),
                           \<lambda>(adj, q, r). length q]"
    by auto
next
  fix adj :: AdjList and cur :: string and queue' reachable :: "string list"
  assume nr: "cur \<notin> set reachable"
  have nb: "set (adj_get adj cur) \<subseteq> \<Union>(set ` snd ` set adj)"
  proof (cases "map_of adj cur")
    case None
    then show ?thesis by (simp add: adj_get_def)
  next
    case (Some ts)
    then have "(cur, ts) \<in> set adj" by (rule map_of_SomeD)
    then show ?thesis using Some by (force simp: adj_get_def)
  qed
  have "(set (queue' @ filter (\<lambda>next. next \<notin> set (cur # reachable)) (adj_get adj cur))
            \<union> \<Union>(set ` snd ` set adj)) - set (cur # reachable)
        \<subset> (set (cur # queue') \<union> \<Union>(set ` snd ` set adj)) - set reachable"
    using nr nb by auto
  then have "card ((set (queue' @ filter (\<lambda>next. next \<notin> set (cur # reachable)) (adj_get adj cur))
            \<union> \<Union>(set ` snd ` set adj)) - set (cur # reachable))
        < card ((set (cur # queue') \<union> \<Union>(set ` snd ` set adj)) - set reachable)"
    by (intro psubset_card_mono) auto
  then show "((adj, queue' @ filter (\<lambda>next. next \<notin> set (cur # reachable)) (adj_get adj cur), cur # reachable),
        adj, cur # queue', reachable)
       \<in> measures [\<lambda>(adj, q, r). card ((set q \<union> \<Union>(set ` snd ` set adj)) - set r),
                           \<lambda>(adj, q, r). length q]"
    by simp
qed

text \<open>
  \<open>remainingAdj\<close>: the adjacency map without the key \<open>nodeId\<close> and without
  \<open>nodeId\<close> among the targets.
\<close>

definition remainingAdj :: "AdjList \<Rightarrow> string \<Rightarrow> AdjList" where
  "remainingAdj adj nodeId =
     map (\<lambda>(src, tgts). (src, filter (\<lambda>t. t \<noteq> nodeId) tgts))
         (filter (\<lambda>(src, tgts). src \<noteq> nodeId) adj)"

text \<open>
  The flag \<open>disconnects\<close> for one candidate: some source other than the candidate
  no longer reaches some sink other than the candidate that it reached in the full graph.
  The two nested loops only set the flag and break, so they are an existence test.
\<close>

definition disconnects :: "AdjList \<Rightarrow> string list \<Rightarrow> string list \<Rightarrow> string \<Rightarrow> bool" where
  "disconnects adj sources sinks nodeId =
     list_ex (\<lambda>src. src \<noteq> nodeId \<and>
                (let reachable = bfsReach (remainingAdj adj nodeId) [src] []
                 in list_ex (\<lambda>sink. sink \<noteq> nodeId \<and> sink \<notin> set reachable \<and>
                                      sink \<in> set (bfsReach adj [src] []))
                            sinks))
             sources"

text \<open>\<open>def?.category === "clients" || def?.category === "observability"\<close>.\<close>

definition isClientOrObservability :: "Catalog \<Rightarrow> Node \<Rightarrow> bool" where
  "isClientOrObservability cmap node =
     (case cmap (componentType (data node)) of
        None \<Rightarrow> False
      | Some d \<Rightarrow> category d = clients \<or> category d = observability)"

text \<open>\<open>[...new Set(xs)]\<close>: the first occurrence of every element, in order.\<close>

definition uniq :: "string list \<Rightarrow> string list" where
  "uniq xs = fold (\<lambda>x acc. if x \<in> set acc then acc else acc @ [x]) xs []"

definition structuralSpofs :: "Catalog \<Rightarrow> Node list \<Rightarrow> Edge list \<Rightarrow> string list" where
  "structuralSpofs cmap nodes edges =
     (let adj = buildAdjacencyList edges;
          sources = findSourceNodes nodes edges;
          sinks = findSinkNodes nodes edges
      in map node_id
           (filter (\<lambda>node. \<not> isClientOrObservability cmap node \<and>
                           \<not> replicas (config (data node)) > 1 \<and>
                           disconnects adj sources sinks (node_id node))
                   nodes))"

definition criticalPathSpofs :: "Catalog \<Rightarrow> Node list \<Rightarrow> string list \<Rightarrow> string list \<Rightarrow> string list" where
  "criticalPathSpofs cmap nodes critPath spofs0 =
     fold (\<lambda>nid spofs.
             case findNode nodes nid of
               None \<Rightarrow> spofs
             | Some node \<Rightarrow>
                 if isClientOrObservability cmap node then spofs
                 else if replicas (config (data node)) \<le> 1 \<and> nid \<notin> set spofs
                      then spofs @ [nid] else spofs)
          critPath spofs0"

definition findSPOFs :: "Catalog \<Rightarrow> Node list \<Rightarrow> Edge list \<Rightarrow> string list" where
  "findSPOFs cmap nodes edges =
     (if length nodes \<le> 1 then map node_id nodes
      else uniq (criticalPathSpofs cmap nodes (fst (findCriticalPath cmap nodes edges))
                   (structuralSpofs cmap nodes edges)))"

text \<open>\<open>node.data.config.replicas || 1\<close>: a replica count of 0 reads as 1.\<close>

definition replicasOr1 :: "Node \<Rightarrow> real" where
  "replicasOr1 node = (if replicas (config (data node)) = 0 then 1 else replicas (config (data node)))"

text \<open>
  \<open>findBottleneck\<close>: the loop state is \<open>(minThroughput, bottleneckId)\<close>, with
  \<open>None\<close> for the initial \<open>Infinity\<close> and \<open>null\<close>.
\<close>

definition findBottleneck :: "Catalog \<Rightarrow> Node list \<Rightarrow> string list \<Rightarrow> string option" where
  "findBottleneck cmap nodes criticalPath' =
     (if length criticalPath' = 0 then None
      else snd (fold (\<lambda>nid (minThroughput, bottleneckId).
                  case findNode nodes nid of
                    None \<Rightarrow> (minThroughput, bottleneckId)
                  | Some node \<Rightarrow>
                      (case cmap (componentType (data node)) of
                         None \<Rightarrow> (minThroughput, bottleneckId)
                       | Some d \<Rightarrow>
                           if category d = clients then (minThroughput, bottleneckId)
                           else
                             let effectiveThroughput = maxThroughput d * replicasOr1 node
                             in if (case minThroughput of None \<Rightarrow> True
                                    | Some m \<Rightarrow> effectiveThroughput < m)
                                then (Some effectiveThroughput, Some nid)
                                else (minThroughput, bottleneckId)))
                criticalPath' (None :: real option, None)))"

definition findRedundancyGroups :: "Node list \<Rightarrow> AdjList" where
  "findRedundancyGroups nodes =
     fold (\<lambda>node groups. adj_push groups (componentType (data node)) (node_id node)) nodes []"

record TopologyAnalysis =
  criticalPath :: "string list"
  criticalPathLatency :: real
  spofNodeIds :: "string list"
  bottleneckNodeId :: "string option"
  networkHops :: nat
  redundancyGroups :: AdjList
  hasClients :: bool
  hasStorage :: bool
  hasCaches :: bool
  hasQueues :: bool

definition typeCheck :: "Catalog \<Rightarrow> Node list \<Rightarrow> ComponentCategory list \<Rightarrow> bool" where
  "typeCheck cmap nodes cats =
     list_ex (\<lambda>n. case cmap (componentType (data n)) of
                     None \<Rightarrow> False | Some d \<Rightarrow> category d \<in> set cats) nodes"

definition analyzeTopology :: "Catalog \<Rightarrow> Node list \<Rightarrow> Edge list \<Rightarrow> TopologyAnalysis" where
  "analyzeTopology cmap nodes edges =
     (if length nodes = 0
      then \<lparr> criticalPath = [], criticalPathLatency = 0, spofNodeIds = [],
             bottleneckNodeId = None, networkHops = 0, redundancyGroups = [],
             hasClients = False, hasStorage = False, hasCaches = False, hasQueues = False \<rparr>
      else
        let (path, latency) = findCriticalPath cmap nodes edges;
            spofs = findSPOFs cmap nodes edges;
            bottleneck = findBottleneck cmap nodes path;
            groups = findRedundancyGroups nodes
        in \<lparr> criticalPath = path, criticalPathLatency = latency, spofNodeIds = spofs,
               bottleneckNodeId = bottleneck, networkHops = length path - 1,
               redundancyGroups = groups,
               hasClients = typeCheck cmap nodes [clients],
               hasStorage = typeCheck cmap nodes [storage],
               hasCaches = list_ex (\<lambda>n. componentType (data n) \<in> set [''redis-cache'', ''memcached'']) nodes,
               hasQueues = list_ex (\<lambda>n. componentType (data n) \<in> set [''message-queue'', ''event-stream'', ''pub-sub'']) nodes \<rparr>)"

section \<open>Metrics (MetricsCalculator)\<close>

text \<open>
  \<open>Math.round\<close> rounds to the nearest integer, halves upwards. The model applies it to
  the exact real value. The engine applies it to the IEEE double that its arithmetic
  produced, and that double can lie on the other side of a half when the exact value is a
  half or within floating-point error of one: \<open>0.05 * ((0.813 - 0.8) / 0.2) * 10000\<close> is
  32.5 exactly and 32.49999999999975 in doubles. At such an input the rounded value of the
  model and the one of the engine are the two neighbours of the exact value.
\<close>

definition js_round :: "real \<Rightarrow> real" where
  "js_round x = of_int \<lfloor>x + 1 / 2\<rfloor>"

definition computeThroughput :: "Catalog \<Rightarrow> Node list \<Rightarrow> TopologyAnalysis \<Rightarrow> real \<Rightarrow> real" where
  "computeThroughput cmap nodes topology trafficLoad =
     (if length (criticalPath topology) = 0 then 0
      else
        case fold (\<lambda>nid minCapacity.
                     case findNode nodes nid of
                       None \<Rightarrow> minCapacity
                     | Some node \<Rightarrow>
                         (case cmap (componentType (data node)) of
                            None \<Rightarrow> minCapacity
                          | Some d \<Rightarrow>
                              if category d = clients then minCapacity
                              else
                                let capacity = maxThroughput d * replicasOr1 node
                                in if (case minCapacity of None \<Rightarrow> True | Some m \<Rightarrow> capacity < m)
                                   then Some capacity else minCapacity))
                  (criticalPath topology) (None :: real option)
        of None \<Rightarrow> trafficLoad
         | Some minCapacity \<Rightarrow> min trafficLoad minCapacity)"

record LatencyPercentiles =
  p50 :: real
  p95 :: real
  p99 :: real

definition hasCacheNode :: "Node list \<Rightarrow> bool" where
  "hasCacheNode nodes =
     list_ex (\<lambda>n. componentType (data n) = ''redis-cache'' \<or> componentType (data n) = ''memcached'') nodes"

definition computeLatency :: "Catalog \<Rightarrow> Node list \<Rightarrow> TopologyAnalysis \<Rightarrow> LatencyPercentiles" where
  "computeLatency cmap nodes topology =
     (if length (criticalPath topology) = 0 then \<lparr> p50 = 0, p95 = 0, p99 = 0 \<rparr>
      else
        let baseSum = fold (\<lambda>nid totalLatency.
                              case findNode nodes nid of
                                None \<Rightarrow> totalLatency
                              | Some node \<Rightarrow>
                                  (case cmap (componentType (data node)) of
                                     None \<Rightarrow> totalLatency
                                   | Some d \<Rightarrow> totalLatency + baseLatency d))
                           (criticalPath topology) 0;
            withHops = baseSum + real (networkHops topology) * 2;
            totalLatency = (if hasCacheNode nodes then withHops * 0.6 else withHops)
        in \<lparr> p50 = js_round totalLatency,
               p95 = js_round (totalLatency * 1.4),
               p99 = js_round (totalLatency * 2.1) \<rparr>)"

definition computeAvailability :: "Catalog \<Rightarrow> Node list \<Rightarrow> TopologyAnalysis \<Rightarrow> real" where
  "computeAvailability cmap nodes topology =
     (if length nodes = 0 then 0
      else if length (spofNodeIds topology) = 0 then 0.99999
      else
        let unavailability =
              fold (\<lambda>spofId u.
                      case findNode nodes spofId of
                        None \<Rightarrow> u
                      | Some node \<Rightarrow>
                          (case cmap (componentType (data node)) of
                             None \<Rightarrow> u
                           | Some d \<Rightarrow> u * (1 - availabilitySLA d)))
                   (spofNodeIds topology) 1
        in min 0.99999 (1 - unavailability))"

text \<open>
  The error term of one node. \<open>loadRatio = trafficLoad / capacity\<close> is an IEEE
  division: for capacity 0 it is \<open>Infinity\<close> when the load is positive (the first
  branch then yields \<open>min(1, Infinity) = 1\<close>) and \<open>NaN\<close> or \<open>-Infinity\<close>
  otherwise (both comparisons are then false and the term stays 0).
\<close>

definition nodeErrorRate :: "ComponentDefinition \<Rightarrow> real \<Rightarrow> real \<Rightarrow> real" where
  "nodeErrorRate d trafficLoad capacity =
     (if capacity = 0 then (if trafficLoad > 0 then 1 else 0)
      else
        let loadRatio = trafficLoad / capacity
        in if loadRatio > 1 then min 1 (failureRateAtCapacity d + (loadRatio - 1) * 0.5)
           else if loadRatio > 0.8 then failureRateAtCapacity d * ((loadRatio - 0.8) / 0.2)
           else 0)"

definition failedOnPath :: "Node list \<Rightarrow> string list \<Rightarrow> bool" where
  "failedOnPath nodes path =
     list_ex (\<lambda>nid. case findNode nodes nid of None \<Rightarrow> False | Some node \<Rightarrow> isFailed (data node)) path"

text \<open>
  \<open>computeErrorRate\<close>. \<open>maxErrorRateOnPath\<close> is the value of the local
  \<open>maxErrorRate\<close> when the loop over the critical path ends. The final
  \<open>Math.round(maxErrorRate * 10000) / 10000\<close> is subject to the remark on
  \<open>js_round\<close>: where \<open>maxErrorRate * 10000\<close> is a half, or within floating-point
  error of one, the engine may return the neighbouring multiple of 0.0001 (at load 813 on a
  capacity of 1000 with failure rate 0.05 the engine returns 0.0032 and the model 0.0033).
\<close>

definition maxErrorRateOnPath :: "Catalog \<Rightarrow> Node list \<Rightarrow> string list \<Rightarrow> real \<Rightarrow> real" where
  "maxErrorRateOnPath cmap nodes path trafficLoad =
     fold (\<lambda>nid maxErrorRate.
             case findNode nodes nid of
               None \<Rightarrow> maxErrorRate
             | Some node \<Rightarrow>
                 (case cmap (componentType (data node)) of
                    None \<Rightarrow> maxErrorRate
                  | Some d \<Rightarrow>
                      if category d = clients then maxErrorRate
                      else
                        let capacity = maxThroughput d * replicasOr1 node;
                            errorRate = nodeErrorRate d trafficLoad capacity
                        in if errorRate > maxErrorRate then errorRate else maxErrorRate))
          path 0"

definition computeErrorRate :: "Catalog \<Rightarrow> Node list \<Rightarrow> TopologyAnalysis \<Rightarrow> real \<Rightarrow> real" where
  "computeErrorRate cmap nodes topology trafficLoad =
     (if length (criticalPath topology) = 0 then 0
      else
        let maxErrorRate = maxErrorRateOnPath cmap nodes (criticalPath topology) trafficLoad
        in if failedOnPath nodes (criticalPath topology) then 1
           else js_round (maxErrorRate * 10000) / 10000)"

definition storageNodes :: "Catalog \<Rightarrow> Node list \<Rightarrow> Node list" where
  "storageNodes cmap nodes =
     filter (\<lambda>n. case cmap (componentType (data n)) of
                    None \<Rightarrow> False | Some d \<Rightarrow> category d = storage) nodes"

definition computeConsistency :: "Catalog \<Rightarrow> Node list \<Rightarrow> string" where
  "computeConsistency cmap nodes =
     (if length (storageNodes cmap nodes) = 0 then ''N/A''
      else
        let models = map (\<lambda>n. case cmap (componentType (data n)) of
                                  None \<Rightarrow> eventual | Some d \<Rightarrow> consistencyModel d)
                         (storageNodes cmap nodes)
        in if eventual \<in> set models then ''Eventual''
           else if causal \<in> set models then ''Causal''
           else ''Strong'')"

fun capName :: "CAPAlignment \<Rightarrow> string" where
  "capName CP = ''CP''"
| "capName AP = ''AP''"
| "capName CA = ''CA''"

fun joinWith :: "string \<Rightarrow> string list \<Rightarrow> string" where
  "joinWith sep [] = []"
| "joinWith sep [x] = x"
| "joinWith sep (x # y # ys) = x @ sep @ joinWith sep (y # ys)"

definition computeCAPState :: "Catalog \<Rightarrow> Node list \<Rightarrow> string" where
  "computeCAPState cmap nodes =
     (if length (storageNodes cmap nodes) = 0 then ''N/A''
      else
        let alignments = uniq (map (\<lambda>n. case cmap (componentType (data n)) of
                                            None \<Rightarrow> ''AP'' | Some d \<Rightarrow> capName (capAlignment d))
                                   (storageNodes cmap nodes))
        in if length alignments = 1 then hd alignments
           else if ''CP'' \<in> set alignments \<and> ''AP'' \<in> set alignments then ''CP + AP (mixed)''
           else joinWith '' + '' alignments)"

definition computeCacheHitRate :: "Node list \<Rightarrow> TopologyAnalysis \<Rightarrow> real option" where
  "computeCacheHitRate nodes topology =
     (if \<not> hasCaches topology then None
      else
        let cacheNodes = filter (\<lambda>n. componentType (data n) = ''redis-cache'' \<or>
                                       componentType (data n) = ''memcached'') nodes;
            totalReplicas = fold (\<lambda>n sum'. sum' + replicasOr1 n) cacheNodes 0
        in Some (min 0.95 (0.8 + totalReplicas * 0.02)))"

definition computeDBReadWriteRatio :: "Catalog \<Rightarrow> Node list \<Rightarrow> real option" where
  "computeDBReadWriteRatio cmap nodes =
     (if list_ex (\<lambda>n. (case cmap (componentType (data n)) of
                          None \<Rightarrow> False | Some d \<Rightarrow> category d = storage) \<and>
                       componentType (data n) \<notin> set [''redis-cache'', ''memcached'', ''object-storage''])
                 nodes
      then Some 0.8 else None)"

text \<open>
  The final \<open>Math.round(score)\<close> of \<open>computeScalabilityScore\<close> is subject to the remark
  on \<open>js_round\<close>.
\<close>

definition computeScalabilityScore :: "Catalog \<Rightarrow> Node list \<Rightarrow> TopologyAnalysis \<Rightarrow> real" where
  "computeScalabilityScore cmap nodes topology =
     (if length nodes = 0 then 0
      else
        let nonClientNodes = filter (\<lambda>n. case cmap (componentType (data n)) of
                                            None \<Rightarrow> False | Some d \<Rightarrow> category d \<noteq> clients) nodes
        in if length nonClientNodes = 0 then 0
           else
             let scalableRatio =
                   real (length (filter (\<lambda>n. case cmap (componentType (data n)) of
                                                None \<Rightarrow> False | Some d \<Rightarrow> isHorizontallyScalable d)
                                        nonClientNodes))
                   / real (length nonClientNodes);
                 score1 = 50 + scalableRatio * 20;
                 score2 = (if list_ex (\<lambda>n. componentType (data n) = ''load-balancer'') nodes
                           then score1 + 10 else score1);
                 score3 = (if hasCaches topology then score2 + 10 else score2);
                 score4 = score3 - real (length (spofNodeIds topology)) * 5;
                 avgReplicas = fold (\<lambda>n s. s + replicasOr1 n) nonClientNodes 0
                               / real (length nonClientNodes);
                 score5 = (if avgReplicas > 1 then score4 + min 10 ((avgReplicas - 1) * 5) else score4)
             in max 0 (min 100 (js_round score5)))"

definition computeMonthlyCost :: "Catalog \<Rightarrow> Node list \<Rightarrow> real" where
  "computeMonthlyCost cmap nodes =
     fold (\<lambda>node total.
             case cmap (componentType (data node)) of
               None \<Rightarrow> total
             | Some d \<Rightarrow> total + costPerInstancePerMonth d * replicasOr1 node)
          nodes 0"

definition computeQueueDepth :: "TopologyAnalysis \<Rightarrow> real \<Rightarrow> real \<Rightarrow> real option" where
  "computeQueueDepth topology trafficLoad throughput' =
     (if \<not> hasQueues topology then None
      else Some (js_round (max 0 (trafficLoad - throughput') * 0.1)))"

text \<open>
  The metric snapshot, without its \<open>timestamp\<close> (\<open>Date.now()\<close>). The fields
  \<open>networkHops\<close> and \<open>consistencyModel\<close> carry the prefix \<open>m_\<close>, since
  the topology and the catalog entry have fields of the same names.
\<close>

record MetricSnapshot =
  throughput :: real
  latencyP50 :: real
  latencyP95 :: real
  latencyP99 :: real
  availability :: real
  errorRate :: real
  m_networkHops :: nat
  m_consistencyModel :: string
  cacheHitRate :: "real option"
  dbReadWriteRatio :: "real option"
  scalabilityScore :: real
  monthlyCost :: real
  queueDepth :: "real option"
  capState :: string

definition computeMetrics :: "Catalog \<Rightarrow> Node list \<Rightarrow> Edge list \<Rightarrow> real \<Rightarrow> MetricSnapshot" where
  "computeMetrics cmap nodes edges trafficLoad =
     (let topology = analyzeTopology cmap nodes edges;
          throughput' = computeThroughput cmap nodes topology trafficLoad;
          lat = computeLatency cmap nodes topology
      in \<lparr> throughput = throughput',
             latencyP50 = p50 lat,
             latencyP95 = p95 lat,
             latencyP99 = p99 lat,
             availability = computeAvailability cmap nodes topology,
             errorRate = computeErrorRate cmap nodes topology trafficLoad,
             m_networkHops = networkHops topology,
             m_consistencyModel = computeConsistency cmap nodes,
             cacheHitRate = computeCacheHitRate nodes topology,
             dbReadWriteRatio = computeDBReadWriteRatio cmap nodes,
             scalabilityScore = computeScalabilityScore cmap nodes topology,
             monthlyCost = computeMonthlyCost cmap nodes,
             queueDepth = computeQueueDepth topology trafficLoad throughput',
             capState = computeCAPState cmap nodes \<rparr>)"

section \<open>Scale tier and validation context (ValidationContext)\<close>

datatype ScaleTier = prototype | startup | growth | scale | enterprise

record ContextThresholds =
  maxAcceptableP99Ms :: real
  minAcceptableAvailability :: real
  replicasRequiredForHA :: real
  requiresLoadBalancer :: bool
  requiresCache :: bool
  requiresObservability :: bool
  requiresGuardrails :: bool

fun TIER_THRESHOLDS :: "ScaleTier \<Rightarrow> ContextThresholds" where
  "TIER_THRESHOLDS prototype =
     \<lparr> maxAcceptableP99Ms = 2000, minAcceptableAvailability = 0.95, replicasRequiredForHA = 1,
       requiresLoadBalancer = False, requiresCache = False, requiresObservability = False,
       requiresGuardrails = False \<rparr>"
| "TIER_THRESHOLDS startup =
     \<lparr> maxAcceptableP99Ms = 1000, minAcceptableAvailability = 0.99, replicasRequiredForHA = 1,
       requiresLoadBalancer = False, requiresCache = False, requiresObservability = False,
       requiresGuardrails = False \<rparr>"
| "TIER_THRESHOLDS growth =
     \<lparr> maxAcceptableP99Ms = 500, minAcceptableAvailability = 0.999, replicasRequiredForHA = 2,
       requiresLoadBalancer = True, requiresCache = True, requiresObservability = False,
       requiresGuardrails = False \<rparr>"
| "TIER_THRESHOLDS scale =
     \<lparr> maxAcceptableP99Ms = 200, minAcceptableAvailability = 0.9999, replicasRequiredForHA = 2,
       requiresLoadBalancer = True, requiresCache = True, requiresObservability = True,
       requiresGuardrails = True \<rparr>"
| "TIER_THRESHOLDS enterprise =
     \<lparr> maxAcceptableP99Ms = 100, minAcceptableAvailability = 0.99999, replicasRequiredForHA = 3,
       requiresLoadBalancer = True, requiresCache = True, requiresObservability = True,
       requiresGuardrails = True \<rparr>"

definition trafficToTier :: "real \<Rightarrow> ScaleTier" where
  "trafficToTier rps =
     (if rps \<le> 500 then prototype
      else if rps \<le> 5000 then startup
      else if rps \<le> 50000 then growth
      else if rps \<le> 500000 then scale
      else enterprise)"

definition countOf :: "string list \<Rightarrow> string list \<Rightarrow> nat" where
  "countOf types ks = length (filter (\<lambda>t. t \<in> set ks) types)"

definition architectureComplexityTier :: "Node list \<Rightarrow> Edge list \<Rightarrow> ScaleTier" where
  "architectureComplexityTier nodes edges =
     (let nodeCount = length nodes;
          edgeCount = length edges;
          types = map (\<lambda>n. componentType (data n)) nodes;
          serviceTypes = [''api-server'', ''web-server'', ''microservice'', ''serverless-function'',
                          ''container-pod''];
          hasMultipleServices = (countOf types serviceTypes \<ge> 3);
          hasServiceMesh = (countOf types serviceTypes \<ge> 5);
          hasMultipleDBTypes =
            (length (remdups (filter (\<lambda>t. t \<in> set [''postgresql'', ''mysql'', ''mongodb'',
                                                         ''cassandra'', ''dynamodb'']) types)) \<ge> 2);
          hasMessageQueue = list_ex (\<lambda>t. t \<in> set [''kafka'', ''message-queue'', ''pub-sub'',
                                                     ''event-stream'']) types;
          hasCDN = (''cdn'' \<in> set types);
          regions = filter (\<lambda>r. r \<noteq> []) (map (\<lambda>n. region (config (data n))) nodes);
          hasMultipleRegions = (length (remdups regions) \<ge> 2);
          hasMLOps = list_ex (\<lambda>t. t \<in> set [''training-cluster'', ''model-registry'',
                                              ''feature-store'', ''drift-detector'']) types;
          hasObservabilityStack =
            (countOf types [''metrics-collector'', ''log-aggregator'', ''distributed-tracer''] \<ge> 2);
          hasAdvancedAI =
            (countOf types [''agent-orchestrator'', ''rag-pipeline'', ''model-router'',
                            ''llm-observability''] \<ge> 2);
          score' = (if nodeCount \<ge> 4 then 1 else 0) + (if nodeCount \<ge> 8 then 1 else 0)
                 + (if nodeCount \<ge> 14 then 2 else 0) + (if nodeCount \<ge> 20 then 2 else 0)
                 + (if edgeCount \<ge> 8 then 1 else 0)
                 + (if hasMultipleServices then 2 else 0) + (if hasServiceMesh then 2 else 0)
                 + (if hasMultipleDBTypes then 1 else 0) + (if hasMessageQueue then 2 else 0)
                 + (if hasCDN then 2 else 0) + (if hasMultipleRegions then 3 else 0)
                 + (if hasMLOps then 3 else 0) + (if hasObservabilityStack then 2 else 0)
                 + (if hasAdvancedAI then 2 else (0 :: nat))
      in if score' \<ge> 12 then enterprise
         else if score' \<ge> 8 then scale
         else if score' \<ge> 5 then growth
         else if score' \<ge> 2 then startup
         else prototype)"

text \<open>
  \<open>map[scenarioId] ?? "startup"\<close> on an object literal with the twelve keys below. An id
  that names a property every object inherits (\<open>toString\<close>, \<open>constructor\<close> and the like)
  would read that property instead of the default; such ids are outside the model.
\<close>

definition scenarioToTier :: "string \<Rightarrow> ScaleTier" where
  "scenarioToTier scenarioId =
     (case map_of [(''basic-web-app'', startup), (''design-twitter'', enterprise),
                   (''netflix-streaming'', enterprise), (''ride-sharing'', scale),
                   (''url-shortener'', growth), (''flash-sale'', scale),
                   (''distributed-database'', scale), (''build-chatgpt'', enterprise),
                   (''rag-enterprise'', scale), (''multi-agent'', scale),
                   (''fraud-detection'', enterprise), (''scale-llm-100m'', enterprise)] scenarioId
      of None \<Rightarrow> startup | Some t \<Rightarrow> t)"

definition componentMixTier :: "Node list \<Rightarrow> ScaleTier" where
  "componentMixTier nodes =
     (let types = map (\<lambda>n. componentType (data n)) nodes;
          enterpriseIndicators = [''training-cluster'', ''drift-detector'', ''ab-test-controller'',
                                  ''feature-store'', ''data-warehouse''];
          scaleIndicators = [''kafka'', ''cdn'', ''distributed-tracer'', ''llm-observability'',
                             ''model-registry'', ''agent-orchestrator''];
          growthIndicators = [''message-queue'', ''api-gateway'', ''reverse-proxy'',
                              ''metrics-collector'', ''rag-pipeline'', ''event-stream'', ''pub-sub'']
      in if list_ex (\<lambda>t. t \<in> set enterpriseIndicators) types then enterprise
         else if list_ex (\<lambda>t. t \<in> set scaleIndicators) types then scale
         else if list_ex (\<lambda>t. t \<in> set growthIndicators) types then growth
         else prototype)"

text \<open>\<open>TIER_ORDER.indexOf\<close>.\<close>

fun tierIndex :: "ScaleTier \<Rightarrow> nat" where
  "tierIndex prototype = 0"
| "tierIndex startup = 1"
| "tierIndex growth = 2"
| "tierIndex scale = 3"
| "tierIndex enterprise = 4"

definition maxTier :: "ScaleTier option list \<Rightarrow> ScaleTier" where
  "maxTier tiers =
     fold (\<lambda>t best. case t of
                        None \<Rightarrow> best
                      | Some t' \<Rightarrow> if tierIndex t' > tierIndex best then t' else best)
          tiers prototype"

record ScenarioTargets =
  minAvailability :: "real option"
  maxLatencyP95 :: "real option"

record ScenarioDefinition =
  scenario_id :: string
  scenario_name :: string
  targets :: ScenarioTargets

record ScaleTierSignals =
  trafficTier :: ScaleTier
  complexityTier :: ScaleTier
  componentTier :: ScaleTier
  scenarioTier :: "ScaleTier option"
  resolvedTier :: ScaleTier

datatype ValidationMode = mode_learning | mode_scenario | mode_freeform

text \<open>
  The validation context, without its display label \<open>scaleTierLabel\<close>. The metric
  snapshot is an argument of \<open>resolveValidationContext\<close> that the function never reads.
\<close>

record ValidationContext =
  currentRPS :: real
  trafficPattern :: string
  scaleTier :: ScaleTier
  scaleTierSignals :: ScaleTierSignals
  mode :: ValidationMode
  scenarioName :: "string option"
  componentCount :: nat
  hasAIComponents :: bool
  isMonolith :: bool
  thresholds :: ContextThresholds

definition resolveValidationContext ::
  "Node list \<Rightarrow> Edge list \<Rightarrow> MetricSnapshot \<Rightarrow> real \<Rightarrow> string \<Rightarrow> ScenarioDefinition option
     \<Rightarrow> ValidationContext" where
  "resolveValidationContext nodes edges metrics trafficLoad trafficPattern' activeScenario =
     (let hasAI = list_ex (\<lambda>n. isAI (data n)) nodes;
          serverNodes = filter (\<lambda>n. componentType (data n) \<in> set [''api-server'', ''web-server'',
                                   ''microservice'', ''serverless-function'', ''container-pod'']) nodes;
          dbNodes = filter (\<lambda>n. componentType (data n) \<in> set [''postgresql'', ''mysql'', ''mongodb'',
                                   ''cassandra'', ''dynamodb'']) nodes;
          trafficTier' = trafficToTier trafficLoad;
          complexityTier' = architectureComplexityTier nodes edges;
          componentTier' = componentMixTier nodes;
          scenTier = (case activeScenario of None \<Rightarrow> None
                      | Some sc \<Rightarrow> Some (scenarioToTier (scenario_id sc)));
          scaleTier' = maxTier [Some trafficTier', Some complexityTier', Some componentTier', scenTier];
          defaults = TIER_THRESHOLDS scaleTier';
          scenarioTargets = (case activeScenario of None \<Rightarrow> None | Some sc \<Rightarrow> Some (targets sc))
      in \<lparr> currentRPS = trafficLoad,
             trafficPattern = trafficPattern',
             scaleTier = scaleTier',
             scaleTierSignals = \<lparr> trafficTier = trafficTier', complexityTier = complexityTier',
                                   componentTier = componentTier', scenarioTier = scenTier,
                                   resolvedTier = scaleTier' \<rparr>,
             mode = (case activeScenario of None \<Rightarrow> mode_freeform | Some _ \<Rightarrow> mode_scenario),
             scenarioName = (case activeScenario of None \<Rightarrow> None | Some sc \<Rightarrow> Some (scenario_name sc)),
             componentCount = length nodes,
             hasAIComponents = hasAI,
             isMonolith = (length serverNodes \<le> 1 \<and> length dbNodes \<le> 1),
             thresholds =
               \<lparr> maxAcceptableP99Ms =
                   (case scenarioTargets of
                      None \<Rightarrow> maxAcceptableP99Ms defaults
                    | Some tg \<Rightarrow> (case maxLatencyP95 tg of
                                    None \<Rightarrow> maxAcceptableP99Ms defaults | Some v \<Rightarrow> v)),
                 minAcceptableAvailability =
                   (case scenarioTargets of
                      None \<Rightarrow> minAcceptableAvailability defaults
                    | Some tg \<Rightarrow> (case minAvailability tg of
                                    None \<Rightarrow> minAcceptableAvailability defaults | Some v \<Rightarrow> v)),
                 replicasRequiredForHA = replicasRequiredForHA defaults,
                 requiresLoadBalancer = requiresLoadBalancer defaults,
                 requiresCache = requiresCache defaults,
                 requiresObservability = requiresObservability defaults,
                 requiresGuardrails = requiresGuardrails defaults \<rparr> \<rparr>)"

section \<open>Architecture validator (ArchitectureValidator)\<close>

datatype CheckOutcome = pass | advisory | fail

datatype Severity = critical | warning | info

text \<open>
  The decimal text of a number inside a template literal (\<open>`${spofCount}`\<close>): of a
  natural number, and of an integer with its sign (integers of 22 or more digits, which
  JavaScript prints with an exponent, are outside the model).
\<close>

function showNat :: "nat \<Rightarrow> string" where
  "showNat n =
     (if n < 10 then [''0123456789'' ! n]
      else showNat (n div 10) @ [''0123456789'' ! (n mod 10)])"
  by pat_completeness auto

termination showNat
  by (relation "measure id") auto

declare showNat.simps [simp del]

definition showInt :: "int \<Rightarrow> string" where
  "showInt i = (if i < 0 then CHR ''-'' # showNat (nat (- i)) else showNat (nat i))"

text \<open>
  The em dash (U+2014) of two check names, in its UTF-8 encoding (a HOL character is a
  byte).
\<close>

definition emDash :: string where
  "emDash = [CHR 0xE2, CHR 0x80, CHR 0x94]"

text \<open>
  A check with its \<open>id\<close>, its \<open>name\<close> (the title the user interface shows), outcome,
  severity and score impact; the other display texts (\<open>contextNote\<close>, \<open>explanation\<close>,
  \<open>fix\<close>, \<open>advisoryNote\<close>, \<open>scaleTierTrigger\<close>) are left out.
\<close>

record ValidationCheck =
  check_id :: string
  check_name :: string
  outcome :: CheckOutcome
  severity :: Severity
  scoreImpact :: real

text \<open>A dimension, without its display texts \<open>name\<close> and \<open>icon\<close>.\<close>

record ValidationDimension =
  dim_id :: string
  score :: real
  checks :: "ValidationCheck list"

definition mkCheck :: "string \<Rightarrow> string \<Rightarrow> CheckOutcome \<Rightarrow> Severity \<Rightarrow> real \<Rightarrow> ValidationCheck" where
  "mkCheck i nm out sev imp =
     \<lparr> check_id = i, check_name = nm, outcome = out, severity = sev, scoreImpact = imp \<rparr>"

definition hasType :: "Node list \<Rightarrow> string list \<Rightarrow> bool" where
  "hasType nodes types = list_ex (\<lambda>n. componentType (data n) \<in> set types) nodes"

definition nodesOfType :: "Node list \<Rightarrow> string list \<Rightarrow> Node list" where
  "nodesOfType nodes types = filter (\<lambda>n. componentType (data n) \<in> set types) nodes"

definition dimScore :: "ValidationCheck list \<Rightarrow> real" where
  "dimScore cs =
     (if length cs = 0 then 100
      else
        let total = fold (\<lambda>c s. s + scoreImpact c) cs 0
        in if total = 0 then 100
           else
             let earned = fold (\<lambda>c s. s + scoreImpact c) (filter (\<lambda>c. outcome c = pass) cs) 0;
                 advisory' = fold (\<lambda>c s. s + scoreImpact c * 0.7) (filter (\<lambda>c. outcome c = advisory) cs) 0
             in js_round (((earned + advisory') / total) * 100))"

definition dbTypes :: "string list" where
  "dbTypes = [''postgresql'', ''mongodb'', ''mysql'', ''cassandra'', ''dynamodb'']"

definition serverTypes :: "string list" where
  "serverTypes = [''api-server'', ''web-server'', ''microservice'', ''serverless-function'',
                  ''container-pod'']"

definition clientTypes :: "string list" where
  "clientTypes = [''web-client'', ''mobile-client'', ''api-consumer'']"

text \<open>
  \<open>checkReliability\<close> pushes its checks in four consecutive blocks (SPOFs, database
  replica, load balancer, connected graph); each block is one function here.
\<close>

definition spofCheck :: "string list \<Rightarrow> ValidationContext \<Rightarrow> ValidationCheck list" where
  "spofCheck spofNodeIds' ctx =
     (let spofCount = length spofNodeIds'
      in if spofCount = 0
         then [mkCheck ''rel-no-spof'' ''No Single Points of Failure'' pass critical 40]
         else if scaleTier ctx = prototype \<or> scaleTier ctx = startup
         then [mkCheck ''rel-spof-advisory''
                 (showNat spofCount @ '' Single Point'' @ (if spofCount > 1 then ''s'' else '''')
                    @ '' of Failure'')
                 advisory warning 10]
         else [mkCheck ''rel-spof-fail''
                 (showNat spofCount @ '' Critical SPOF'' @ (if spofCount > 1 then ''s'' else ''''))
                 fail critical 40])"

text \<open>
  The database-replica block. It pushes no check without a database node and otherwise one
  of three checks, each with an id and a name of its own: \<open>rel-db-replica\<close>
  "Database Replica Present" (pass), \<open>rel-db-replica-adv\<close> "Database Has No Replica"
  (advisory) and \<open>rel-db-replica-fail\<close> "Database Lacks Replica" (fail).
\<close>

definition dbReplicaCheck :: "Node list \<Rightarrow> ValidationContext \<Rightarrow> ValidationCheck list" where
  "dbReplicaCheck nodes ctx =
     (let dbNodes = nodesOfType nodes dbTypes;
          hasDBReplica = (length dbNodes \<ge> 2 \<or>
                          list_ex (\<lambda>n. replicas (config (data n)) \<ge> 2) dbNodes)
      in if length dbNodes = 0 then []
         else if hasDBReplica
         then [mkCheck ''rel-db-replica'' ''Database Replica Present'' pass warning 20]
         else if replicasRequiredForHA (thresholds ctx) \<le> 1
         then [mkCheck ''rel-db-replica-adv'' ''Database Has No Replica'' advisory info 5]
         else [mkCheck ''rel-db-replica-fail'' ''Database Lacks Replica'' fail critical 25])"

definition loadBalancerCheck :: "Node list \<Rightarrow> ValidationContext \<Rightarrow> ValidationCheck list" where
  "loadBalancerCheck nodes ctx =
     (let hasLB = hasType nodes [''load-balancer'', ''api-gateway'', ''reverse-proxy''];
          serverCount = length (nodesOfType nodes serverTypes);
          totalServerReplicas = fold (\<lambda>n s. s + replicas (config (data n)))
                                     (nodesOfType nodes serverTypes) 0
      in if hasLB then [mkCheck ''rel-lb'' ''Load Balancer Present'' pass warning 20]
         else if serverCount > 1 \<or> totalServerReplicas > 1
         then [mkCheck ''rel-lb-fail'' ''Multiple Servers Without Load Balancer'' fail critical 30]
         else if \<not> requiresLoadBalancer (thresholds ctx)
         then [mkCheck ''rel-lb-adv'' ''No Load Balancer'' advisory info 0]
         else [mkCheck ''rel-lb-rec'' ''No Load Balancer'' advisory warning 15])"

definition connectedCheck :: "Node list \<Rightarrow> Edge list \<Rightarrow> ValidationCheck list" where
  "connectedCheck nodes edges =
     (let disconnected = filter (\<lambda>n. \<not> list_ex (\<lambda>e. source e = node_id n \<or> target e = node_id n) edges)
                                nodes
      in [mkCheck ''rel-connected'' ''All Components Connected''
            (if length disconnected = 0 then pass else fail) warning 15])"

definition checkReliability ::
  "Node list \<Rightarrow> Edge list \<Rightarrow> string list \<Rightarrow> ValidationContext \<Rightarrow> ValidationDimension" where
  "checkReliability nodes edges spofNodeIds' ctx =
     (let cs = spofCheck spofNodeIds' ctx @ dbReplicaCheck nodes ctx
               @ loadBalancerCheck nodes ctx @ connectedCheck nodes edges
      in \<lparr> dim_id = ''reliability'', score = dimScore cs, checks = cs \<rparr>)"

text \<open>
  In the name of the failing cache check, \<open>Math.round(dbReadRatio * 100)\<close> is the
  integer \<open>\<lfloor>dbReadRatio * 100 + 1/2\<rfloor>\<close>, taken over exact reals.
\<close>

definition checkPerformance ::
  "Node list \<Rightarrow> MetricSnapshot \<Rightarrow> ValidationContext \<Rightarrow> ValidationDimension" where
  "checkPerformance nodes metrics ctx =
     (let p99' = latencyP99 metrics;
          threshold = maxAcceptableP99Ms (thresholds ctx);
          latencyCheck =
            (if p99' \<le> threshold * 0.5 then mkCheck ''perf-latency'' ''Latency Excellent'' pass info 30
             else if p99' \<le> threshold
             then mkCheck ''perf-latency'' ''Latency Within Target'' pass info 20
             else mkCheck ''perf-latency'' ''P99 Latency Exceeds Target'' fail
                    (if p99' > threshold * 2 then critical else warning) 30);
          errorRate' = errorRate metrics;
          errorCheck =
            (if errorRate' < 0.001 then mkCheck ''perf-errors'' ''Error Rate Excellent'' pass info 25
             else if errorRate' < 0.01
             then mkCheck ''perf-errors'' ''Error Rate Acceptable'' pass info 15
             else mkCheck ''perf-errors'' ''High Error Rate'' fail
                    (if errorRate' > 0.05 then critical else warning) 25);
          hasCache = hasType nodes [''redis-cache'', ''memcached'', ''prompt-cache''];
          hasDB = hasType nodes dbTypes;
          dbReadRatio = (case dbReadWriteRatio metrics of None \<Rightarrow> 0.5 | Some r \<Rightarrow> r);
          cacheCheck =
            (if hasCache then mkCheck ''perf-cache'' ''Cache Layer Present'' pass info 15
             else if \<not> requiresCache (thresholds ctx) \<or> \<not> hasDB
             then mkCheck ''perf-cache'' ''No Cache Layer'' advisory info 0
             else mkCheck ''perf-cache''
                    (''No Cache Layer '' @ emDash @ '' '' @ showInt \<lfloor>dbReadRatio * 100 + 1 / 2\<rfloor>
                       @ ''% DB reads'')
                    fail warning 15);
          hasCDN = hasType nodes [''cdn''];
          cdnCheck =
            (if hasCDN then mkCheck ''perf-cdn'' ''CDN for Edge Caching'' pass info 10
             else if scaleTier ctx = prototype \<or> scaleTier ctx = startup
             then mkCheck ''perf-cdn'' ''No CDN'' advisory info 0
             else mkCheck ''perf-cdn'' ''No CDN'' advisory warning 10);
          cs = [latencyCheck, errorCheck, cacheCheck, cdnCheck]
      in \<lparr> dim_id = ''performance'', score = dimScore cs, checks = cs \<rparr>)"

text \<open>An edge from a client node straight to a database node.\<close>

definition directDB :: "Node list \<Rightarrow> Edge list \<Rightarrow> bool" where
  "directDB nodes edges =
     (let clientIds = map node_id (nodesOfType nodes clientTypes);
          dbIds = map node_id (nodesOfType nodes dbTypes)
      in list_ex (\<lambda>e. source e \<in> set clientIds \<and> target e \<in> set dbIds) edges)"

definition checkDataIntegrity ::
  "Node list \<Rightarrow> Edge list \<Rightarrow> ValidationContext \<Rightarrow> ValidationDimension" where
  "checkDataIntegrity nodes edges ctx =
     (let dbNodes = nodesOfType nodes dbTypes;
          storeCheck = mkCheck ''data-store'' ''Data Store Present''
                         (if length dbNodes > 0 then pass else fail) critical 30;
          directCheck = mkCheck ''data-no-direct'' ''No Direct Client-to-DB Connection''
                          (if directDB nodes edges then fail else pass) critical 25;
          hasObjStore = hasType nodes [''object-storage''];
          backupCheck =
            (if hasObjStore \<or> length dbNodes \<ge> 2
             then mkCheck ''data-backup'' ''Backup Path Exists'' pass warning 20
             else if scaleTier ctx = prototype \<or> scaleTier ctx = startup
             then mkCheck ''data-backup'' ''No Backup Storage'' advisory info 5
             else mkCheck ''data-backup'' ''No Backup Storage'' fail warning 20);
          cs = [storeCheck, directCheck, backupCheck]
      in \<lparr> dim_id = ''dataIntegrity'', score = dimScore cs, checks = cs \<rparr>)"

definition checkSecurity ::
  "Node list \<Rightarrow> Edge list \<Rightarrow> ValidationContext \<Rightarrow> ValidationDimension" where
  "checkSecurity nodes edges ctx =
     (let hasGW = hasType nodes [''api-gateway''];
          gwCheck =
            (if hasGW then mkCheck ''sec-gw'' ''API Gateway Present'' pass warning 30
             else if scaleTier ctx = prototype
             then mkCheck ''sec-gw'' ''No API Gateway'' advisory info 0
             else mkCheck ''sec-gw'' ''No API Gateway'' advisory warning 15);
          hasWAF = hasType nodes [''firewall-waf''];
          wafCheck =
            (if hasWAF then mkCheck ''sec-waf'' ''WAF / Firewall Present'' pass warning 25
             else if scaleTier ctx = prototype \<or> scaleTier ctx = startup
             then mkCheck ''sec-waf'' ''No WAF/Firewall'' advisory info 0
             else mkCheck ''sec-waf'' ''No WAF/Firewall'' advisory warning 15);
          exposureCheck =
            (if \<not> directDB nodes edges
             then mkCheck ''sec-no-direct-db'' ''No Direct DB Exposure'' pass critical 25
             else mkCheck ''sec-no-direct-db'' ''Database Directly Exposed'' fail critical 25);
          hasTLS = hasType nodes [''cdn'', ''api-gateway'', ''reverse-proxy'', ''load-balancer''];
          tlsCheck = mkCheck ''sec-tls'' ''TLS Termination''
                       (if hasTLS then pass
                        else if scaleTier ctx = prototype then advisory else advisory)
                       info (if hasTLS then 10 else 5);
          cs = [gwCheck, wafCheck, exposureCheck, tlsCheck]
      in \<lparr> dim_id = ''security'', score = dimScore cs, checks = cs \<rparr>)"

definition checkObservability :: "Node list \<Rightarrow> ValidationContext \<Rightarrow> ValidationDimension" where
  "checkObservability nodes ctx =
     (let hasMetrics = hasType nodes [''metrics-collector''];
          hasTracing = hasType nodes [''distributed-tracer''];
          hasLogs = hasType nodes [''log-aggregator''];
          metricsCheck =
            (if hasMetrics then mkCheck ''obs-metrics'' ''Metrics Collection'' pass warning 40
             else if \<not> requiresObservability (thresholds ctx)
             then mkCheck ''obs-metrics'' ''No Metrics Collection'' advisory info 0
             else mkCheck ''obs-metrics'' ''No Metrics Collection'' fail warning 40);
          tracingCheck =
            (if hasTracing then mkCheck ''obs-tracing'' ''Distributed Tracing'' pass info 30
             else mkCheck ''obs-tracing'' ''No Distributed Tracing'' advisory info 0);
          logsCheck =
            (if hasLogs then mkCheck ''obs-logs'' ''Log Aggregation'' pass info 30
             else mkCheck ''obs-logs'' ''No Log Aggregation'' advisory info 0);
          cs = [metricsCheck, tracingCheck, logsCheck]
      in \<lparr> dim_id = ''observability'', score = dimScore cs, checks = cs \<rparr>)"

definition checkAIBestPractices :: "Node list \<Rightarrow> ValidationContext \<Rightarrow> ValidationDimension" where
  "checkAIBestPractices nodes ctx =
     (let llmNodes = nodesOfType nodes [''llm-inference''];
          hasGuardrails = hasType nodes [''guardrails''];
          hasRAG = hasType nodes [''rag-pipeline''];
          hasVectorDB = hasType nodes [''vector-database''];
          hasAIGW = hasType nodes [''ai-gateway''];
          hasPromptCache = hasType nodes [''prompt-cache''];
          hasLLMObs = hasType nodes [''llm-observability''];
          hasDrift = hasType nodes [''drift-detector''];
          hasTraining = hasType nodes [''training-cluster'']
      in if length llmNodes = 0
         then \<lparr> dim_id = ''ai'', score = 100,
                checks = [mkCheck ''ai-none'' ''No AI Components'' pass info 100] \<rparr>
         else
           let guardrailsCheck =
                 (if hasGuardrails
                  then mkCheck ''ai-guardrails'' ''Guardrails on LLM Output'' pass critical 20
                  else if scaleTier ctx = prototype
                  then mkCheck ''ai-guardrails'' ''No Guardrails on LLM'' advisory warning 5
                  else mkCheck ''ai-guardrails'' ''No Guardrails on LLM'' fail critical 20);
               ragCheck =
                 (if hasRAG \<or> hasVectorDB then mkCheck ''ai-rag'' ''RAG Grounding'' pass info 15
                  else mkCheck ''ai-rag'' ''RAG Grounding'' advisory warning 5);
               gwCheck =
                 (if hasAIGW then mkCheck ''ai-gw'' ''AI Gateway'' pass info 15
                  else mkCheck ''ai-gw'' ''AI Gateway'' advisory warning 5);
               cacheCheck =
                 (if hasPromptCache then mkCheck ''ai-cache'' ''Prompt Caching'' pass info 10
                  else mkCheck ''ai-cache'' ''Prompt Caching'' advisory info 0);
               obsCheck =
                 (if hasLLMObs then mkCheck ''ai-obs'' ''LLM Observability'' pass info 10
                  else mkCheck ''ai-obs'' ''LLM Observability'' advisory info 0);
               llmReplicas = fold (\<lambda>n s. s + replicas (config (data n))) llmNodes 0;
               hasModelRouter = hasType nodes [''model-router''];
               llmSpofCheck =
                 (if llmReplicas \<ge> 2 \<or> hasModelRouter
                  then mkCheck ''ai-spof'' ''LLM Redundancy'' pass critical 15
                  else if scaleTier ctx = prototype \<or> scaleTier ctx = startup
                  then mkCheck ''ai-spof'' ''Single LLM Instance'' advisory warning 5
                  else mkCheck ''ai-spof'' (''Single LLM Instance '' @ emDash @ '' SPOF'')
                         fail critical 15);
               driftChecks =
                 (if hasTraining
                  then [if hasDrift then mkCheck ''ai-drift'' ''Model Drift Detection'' pass info 10
                        else mkCheck ''ai-drift'' ''Model Drift Detection'' advisory warning 5]
                  else []);
               cs = [guardrailsCheck, ragCheck, gwCheck, cacheCheck, obsCheck, llmSpofCheck]
                    @ driftChecks
           in \<lparr> dim_id = ''ai'', score = dimScore cs, checks = cs \<rparr>)"

definition AI_COMPONENT_TYPES :: "string list" where
  "AI_COMPONENT_TYPES =
     [''llm-inference'', ''vector-database'', ''embedding-service'', ''ai-gateway'',
      ''agent-orchestrator'', ''rag-pipeline'', ''guardrails'', ''prompt-cache'',
      ''model-registry'', ''feature-store'', ''tool-executor'', ''memory-store'',
      ''model-router'', ''training-cluster'', ''drift-detector'', ''llm-observability'']"

definition isAIComponentType :: "string \<Rightarrow> bool" where
  "isAIComponentType t = (t \<in> set AI_COMPONENT_TYPES)"

datatype Grade = GradeA | GradeB | GradeC | GradeD | GradeF

text \<open>\<open>weights[d.id] ?? 0\<close>.\<close>

definition dimWeight :: "string \<Rightarrow> real" where
  "dimWeight i =
     (case map_of [(''reliability'', 25), (''performance'', 20), (''dataIntegrity'', 15),
                   (''security'', 15), (''observability'', 10), (''ai'', 15)] i
      of None \<Rightarrow> 0 | Some w \<Rightarrow> w)"

definition gradeOf :: "real \<Rightarrow> Grade" where
  "gradeOf overallScore' =
     (if overallScore' \<ge> 90 then GradeA
      else if overallScore' \<ge> 80 then GradeB
      else if overallScore' \<ge> 70 then GradeC
      else if overallScore' \<ge> 60 then GradeD
      else GradeF)"

definition validateHasAI :: "Node list \<Rightarrow> bool" where
  "validateHasAI nodes =
     list_ex (\<lambda>n. isAI (data n) \<or> isAIComponentType (componentType (data n))) nodes"

definition validateDimensions ::
  "Node list \<Rightarrow> Edge list \<Rightarrow> string list \<Rightarrow> MetricSnapshot \<Rightarrow> ValidationContext
     \<Rightarrow> ValidationDimension list" where
  "validateDimensions nodes edges spofNodeIds' metrics ctx =
     [checkReliability nodes edges spofNodeIds' ctx,
      checkPerformance nodes metrics ctx,
      checkDataIntegrity nodes edges ctx,
      checkSecurity nodes edges ctx,
      checkObservability nodes ctx]
     @ (if validateHasAI nodes then [checkAIBestPractices nodes ctx] else [])"

text \<open>
  The validation report, without \<open>verdict\<close>, \<open>topIssues\<close>, \<open>strengths\<close>
  (display texts and selections of the checks) and \<open>generatedAt\<close>.
\<close>

record ValidationReport =
  overallScore :: real
  grade :: Grade
  report_context :: ValidationContext
  dimensions :: "ValidationDimension list"

definition validate ::
  "Node list \<Rightarrow> Edge list \<Rightarrow> string list \<Rightarrow> MetricSnapshot \<Rightarrow> real \<Rightarrow> string
     \<Rightarrow> ScenarioDefinition option \<Rightarrow> ValidationReport" where
  "validate nodes edges spofNodeIds' metrics trafficLoad trafficPattern' activeScenario =
     (let ctx = resolveValidationContext nodes edges metrics trafficLoad trafficPattern' activeScenario;
          hasAI = validateHasAI nodes;
          dims = validateDimensions nodes edges spofNodeIds' metrics ctx;
          totalWeight = (if hasAI then 100 else 85);
          overallScore' = js_round (fold (\<lambda>d acc. acc + score d * dimWeight (dim_id d)) dims 0
                                    / totalWeight)
      in \<lparr> overallScore = overallScore', grade = gradeOf overallScore',
             report_context = ctx, dimensions = dims \<rparr>)"

section \<open>Specification-level notions and example inputs\<close>

text \<open>
  The ids the traversal of \<open>propagateLoad\<close> can reach: the ids of the source nodes
  (nodes no edge points to), and the target of every edge that leaves a reached node.
\<close>

inductive reaches :: "Node list \<Rightarrow> Edge list \<Rightarrow> string \<Rightarrow> bool"
  for nodes :: "Node list" and edges :: "Edge list" where
  reaches_source: "n \<in> set nodes \<Longrightarrow> node_id n \<notin> target ` set edges \<Longrightarrow> reaches nodes edges (node_id n)"
| reaches_edge: "reaches nodes edges u \<Longrightarrow> u \<in> node_id ` set nodes \<Longrightarrow> e \<in> set edges \<Longrightarrow> source e = u
     \<Longrightarrow> reaches nodes edges (target e)"

definition mkNode :: "string \<Rightarrow> string \<Rightarrow> real \<Rightarrow> Node" where
  "mkNode i kind r =
     \<lparr> node_id = i,
       data = \<lparr> componentType = kind,
                config = \<lparr> label = i, replicas = r, region = ''us-east-1'' \<rparr>,
                isFailed = False, isAI = False \<rparr> \<rparr>"

definition mkEdge :: "string \<Rightarrow> string \<Rightarrow> Edge" where
  "mkEdge s t = \<lparr> edge_id = s @ ''-'' @ t, source = s, target = t \<rparr>"

text \<open>The chain A \<rightarrow> B \<rightarrow> C.\<close>

definition chainNodes :: "Node list" where
  "chainNodes = [mkNode ''A'' ''web-client'' 1, mkNode ''B'' ''web-server'' 1, mkNode ''C'' ''postgresql'' 1]"

definition chainEdges :: "Edge list" where
  "chainEdges = [mkEdge ''A'' ''B'', mkEdge ''B'' ''C'']"


text \<open>One source with two outgoing edges to sibling leaves.\<close>

definition fanNodes :: "Node list" where
  "fanNodes = [mkNode ''S'' ''web-client'' 1, mkNode ''L1'' ''web-server'' 1, mkNode ''L2'' ''web-server'' 1]"

definition fanEdges :: "Edge list" where
  "fanEdges = [mkEdge ''S'' ''L1'', mkEdge ''S'' ''L2'']"

text \<open>Two sources, and a cycle X \<rightarrow> Y \<rightarrow> X that no source leads to.\<close>

definition islandNodes :: "Node list" where
  "islandNodes = [mkNode ''S1'' ''web-client'' 1, mkNode ''S2'' ''web-client'' 1,
                  mkNode ''T'' ''web-server'' 1, mkNode ''X'' ''web-server'' 1,
                  mkNode ''Y'' ''web-server'' 1]"

definition islandEdges :: "Edge list" where
  "islandEdges = [mkEdge ''S1'' ''T'', mkEdge ''X'' ''Y'', mkEdge ''Y'' ''X'']"

text \<open>A source S in front of the cycle A \<rightarrow> B \<rightarrow> A.\<close>

definition cycleNodes :: "Node list" where
  "cycleNodes = [mkNode ''S'' ''web-client'' 1, mkNode ''A'' ''web-server'' 1, mkNode ''B'' ''web-server'' 1]"

definition cycleEdges :: "Edge list" where
  "cycleEdges = [mkEdge ''S'' ''A'', mkEdge ''A'' ''B'', mkEdge ''B'' ''A'']"

text \<open>
  An acyclic graph whose merge node C is reached from A by a path of length 1 and by a
  path of length 3: A \<rightarrow> C, A \<rightarrow> B1, B1 \<rightarrow> B2, B2 \<rightarrow> C, C \<rightarrow> E.
\<close>

definition mergeNodes :: "Node list" where
  "mergeNodes = [mkNode ''A'' ''web-client'' 1, mkNode ''B1'' ''web-server'' 1,
                 mkNode ''B2'' ''web-server'' 1, mkNode ''C'' ''web-server'' 1,
                 mkNode ''E'' ''postgresql'' 1]"

definition mergeEdges :: "Edge list" where
  "mergeEdges = [mkEdge ''A'' ''C'', mkEdge ''A'' ''B1'', mkEdge ''B1'' ''B2'',
                 mkEdge ''B2'' ''C'', mkEdge ''C'' ''E'']"

text \<open>
  The engine is parametric in the catalog. For evaluating it on concrete graphs, an example
  catalog with a client, a compute node, two storage nodes and an observability node; its
  figures are illustrative, not those of \<open>constants/componentDefinitions\<close>. Every other
  kind, such as \<open>mystery-box\<close>, has no entry.
\<close>

definition exampleCatalog :: Catalog where
  "exampleCatalog =
     [''web-client'' \<mapsto> \<lparr> category = clients, maxThroughput = 100000, baseLatency = 0,
          failureRateAtCapacity = 0, isHorizontallyScalable = True, availabilitySLA = 0.9999,
          consistencyModel = eventual, capAlignment = AP, costPerInstancePerMonth = 0 \<rparr>,
      ''web-server'' \<mapsto> \<lparr> category = compute, maxThroughput = 1000, baseLatency = 20,
          failureRateAtCapacity = 0.05, isHorizontallyScalable = True, availabilitySLA = 0.999,
          consistencyModel = strong, capAlignment = CP, costPerInstancePerMonth = 50 \<rparr>,
      ''postgresql'' \<mapsto> \<lparr> category = storage, maxThroughput = 5000, baseLatency = 5,
          failureRateAtCapacity = 0.1, isHorizontallyScalable = False, availabilitySLA = 0.9995,
          consistencyModel = strong, capAlignment = CP, costPerInstancePerMonth = 200 \<rparr>,
      ''metrics-collector'' \<mapsto> \<lparr> category = observability, maxThroughput = 50000, baseLatency = 1,
          failureRateAtCapacity = 0.01, isHorizontallyScalable = True, availabilitySLA = 0.999,
          consistencyModel = eventual, capAlignment = AP, costPerInstancePerMonth = 30 \<rparr>,
      ''object-storage'' \<mapsto> \<lparr> category = storage, maxThroughput = 10000, baseLatency = 50,
          failureRateAtCapacity = 0.01, isHorizontallyScalable = True, availabilitySLA = 0.9999,
          consistencyModel = eventual, capAlignment = AP, costPerInstancePerMonth = 25 \<rparr>]"

text \<open>
  Raising the replica count of the node with id \<open>nid\<close> to \<open>r\<close> (every node with
  that id, should ids repeat), leaving every other node unchanged.
\<close>

definition withReplicas :: "real \<Rightarrow> Node \<Rightarrow> Node" where
  "withReplicas r n = n\<lparr>data := (data n)\<lparr>config := (config (data n))\<lparr>replicas := r\<rparr>\<rparr>\<rparr>"

definition setReplicas :: "string \<Rightarrow> real \<Rightarrow> Node list \<Rightarrow> Node list" where
  "setReplicas nid r nodes = map (\<lambda>n. if node_id n = nid then withReplicas r n else n) nodes"

text \<open>
  The factor a SPOF id contributes to the unavailability product: \<open>1 - availabilitySLA\<close>
  of its node's kind, and 1 (no contribution) when the id resolves to no node or the kind
  has no catalog entry.
\<close>

definition unavailabilityOf :: "Catalog \<Rightarrow> Node list \<Rightarrow> string \<Rightarrow> real" where
  "unavailabilityOf cmap nodes nid =
     (case findNode nodes nid of
        None \<Rightarrow> 1
      | Some node \<Rightarrow>
          (case cmap (componentType (data node)) of
             None \<Rightarrow> 1
           | Some d \<Rightarrow> 1 - availabilitySLA d))"

text \<open>
  The claimed error model, in the words of the specification: the error term of a load
  ratio, the non-client nodes on a path that have a catalog entry, and the error rate
  computed from each node's \<^emph>\<open>propagated\<close> incoming load.
\<close>

definition claimedErrorTerm :: "real \<Rightarrow> real \<Rightarrow> real" where
  "claimedErrorTerm failureRate loadRatio =
     (if loadRatio > 1 then min 1 (failureRate + (loadRatio - 1) * 0.5)
      else if loadRatio > 0.8 then failureRate * ((loadRatio - 0.8) / 0.2)
      else 0)"

definition nonClientOnPath :: "Catalog \<Rightarrow> Node list \<Rightarrow> string list \<Rightarrow> (Node \<times> ComponentDefinition) list" where
  "nonClientOnPath cmap nodes path =
     concat (map (\<lambda>nid. case findNode nodes nid of
                            None \<Rightarrow> []
                          | Some node \<Rightarrow>
                              (case cmap (componentType (data node)) of
                                 None \<Rightarrow> []
                               | Some d \<Rightarrow> if category d = clients then [] else [(node, d)]))
                 path)"

definition claimedErrorRate :: "Catalog \<Rightarrow> Node list \<Rightarrow> Edge list \<Rightarrow> real \<Rightarrow> real" where
  "claimedErrorRate cmap nodes edges trafficLoad =
     (let cp = criticalPath (analyzeTopology cmap nodes edges)
      in if failedOnPath nodes cp then 1
         else
           case propagateLoad nodes edges trafficLoad of
             None \<Rightarrow> 0
           | Some m \<Rightarrow>
               fold max
                 (map (\<lambda>(node, d). claimedErrorTerm (failureRateAtCapacity d)
                                      (getOr0 m (node_id node) / (maxThroughput d * replicasOr1 node)))
                      (nonClientOnPath cmap nodes cp))
                 0)"

text \<open>
  Ids on a path whose node has a catalog entry (an id that resolves to no node is kept: the
  aggregations skip it anyway), and the path without the ids of unknown kinds.
\<close>

definition hasCatalogEntry :: "Catalog \<Rightarrow> Node list \<Rightarrow> string \<Rightarrow> bool" where
  "hasCatalogEntry cmap nodes nid =
     (case findNode nodes nid of
        None \<Rightarrow> True
      | Some node \<Rightarrow> cmap (componentType (data node)) \<noteq> None)"

definition dropUnknownKinds :: "Catalog \<Rightarrow> Node list \<Rightarrow> string list \<Rightarrow> string list" where
  "dropUnknownKinds cmap nodes path = filter (hasCatalogEntry cmap nodes) path"

text \<open>
  The latency of a path as \<open>findCriticalPath\<close> accumulates it (an unknown kind counts
  10 ms), and as it would be if unknown kinds contributed nothing.
\<close>

definition pathLatency :: "Catalog \<Rightarrow> Node list \<Rightarrow> string list \<Rightarrow> real" where
  "pathLatency cmap nodes path =
     sum_list (map (\<lambda>nid. case nodeMap_get nodes nid of
                              None \<Rightarrow> 0
                            | Some node \<Rightarrow>
                                (case cmap (componentType (data node)) of
                                   None \<Rightarrow> 10
                                 | Some d \<Rightarrow> baseLatency d))
                   path)"

definition claimedPathLatency :: "Catalog \<Rightarrow> Node list \<Rightarrow> string list \<Rightarrow> real" where
  "claimedPathLatency cmap nodes path =
     sum_list (map (\<lambda>nid. case nodeMap_get nodes nid of
                              None \<Rightarrow> 0
                            | Some node \<Rightarrow>
                                (case cmap (componentType (data node)) of
                                   None \<Rightarrow> 0
                                 | Some d \<Rightarrow> baseLatency d))
                   path)"

text \<open>A chain client \<rightarrow> unknown kind \<rightarrow> server.\<close>

definition unknownNodes :: "Node list" where
  "unknownNodes = [mkNode ''A'' ''web-client'' 1, mkNode ''M'' ''mystery-box'' 1,
                   mkNode ''B'' ''web-server'' 1]"

definition unknownEdges :: "Edge list" where
  "unknownEdges = [mkEdge ''A'' ''M'', mkEdge ''M'' ''B'']"

text \<open>
  The chain client \<rightarrow> server \<rightarrow> database with an object store behind the server.
\<close>

definition backupNodes :: "Node list" where
  "backupNodes = [mkNode ''A'' ''web-client'' 1, mkNode ''B'' ''web-server'' 1,
                  mkNode ''C'' ''postgresql'' 1, mkNode ''O'' ''object-storage'' 1]"

definition backupEdges :: "Edge list" where
  "backupEdges = [mkEdge ''A'' ''B'', mkEdge ''B'' ''C'', mkEdge ''B'' ''O'']"

text \<open>
  The weighted average of the dimension scores as the claim words it: the exact quotient,
  with the divisor 100 when AI components exist and 85 otherwise.
\<close>

definition weightedAverage :: "ValidationDimension list \<Rightarrow> bool \<Rightarrow> real" where
  "weightedAverage dims hasAI =
     sum_list (map (\<lambda>d. score d * dimWeight (dim_id d)) dims) / (if hasAI then 100 else 85)"

section \<open>Load propagation: lemmas\<close>

lemma fold_nodes_init:
  "fold (\<lambda>n adj. adj(node_id n \<mapsto> v)) nodes m k = (if k \<in> node_id ` set nodes then Some v else m k)"
  by (induction nodes arbitrary: m) auto

lemma fold_edges_adj:
  "fold (\<lambda>e adj. case adj (source e) of Some ts \<Rightarrow> adj(source e \<mapsto> ts @ [target e]) | None \<Rightarrow> adj) edges adj0 k
    = (case adj0 k of None \<Rightarrow> None | Some ts \<Rightarrow> Some (ts @ map target (filter (\<lambda>e. source e = k) edges)))"
  by (induction edges arbitrary: adj0) (auto split: option.splits)

lemma pl_adj_eq:
  "pl_adj nodes edges k =
     (if k \<in> node_id ` set nodes then Some (map target (filter (\<lambda>e. source e = k) edges)) else None)"
  by (simp add: pl_adj_def fold_edges_adj fold_nodes_init)

lemma fold_edges_deg:
  "(case fold (\<lambda>e deg. deg(target e \<mapsto> (case deg (target e) of None \<Rightarrow> 0 | Some d \<Rightarrow> d) + 1)) edges deg0 k
      of None \<Rightarrow> 0 | Some d \<Rightarrow> d)
    = (case deg0 k of None \<Rightarrow> 0 | Some d \<Rightarrow> d) + length (filter (\<lambda>e. target e = k) edges)"
  by (induction edges arbitrary: deg0) (auto split: option.splits)

lemma pl_inDegree_eq:
  "(case pl_inDegree nodes edges k of None \<Rightarrow> 0 | Some d \<Rightarrow> d) = length (filter (\<lambda>e. target e = k) edges)"
  unfolding pl_inDegree_def fold_edges_deg by (simp add: fold_nodes_init)

lemma pl_sources_eq:
  "pl_sources nodes edges = filter (\<lambda>n. node_id n \<notin> target ` set edges) nodes"
  unfolding pl_sources_def pl_inDegree_eq
  by (rule filter_cong) (force simp: filter_empty_conv)+

lemma propagateStep_measure:
  assumes fin: "finite U"
    and adjU: "\<And>k ts. adj k = Some ts \<Longrightarrow> set ts \<subseteq> U"
    and q: "st_queue s \<noteq> []" and qU: "set (st_queue s) \<subseteq> U"
  shows "set (st_queue (propagateStep adj s)) \<subseteq> U \<and>
         (propagateStep adj s, s) \<in> measures [\<lambda>s. card (U - set (st_visited s)), \<lambda>s. length (st_queue s)]"
proof -
  from q obtain nodeId rest where qs: "st_queue s = nodeId # rest" by (cases "st_queue s") auto
  show ?thesis
  proof (cases "nodeId \<in> set (st_visited s)")
    case True
    then show ?thesis using qs qU by (simp add: propagateStep_def)
  next
    case False
    have nb: "set (case adj nodeId of None \<Rightarrow> [] | Some ts \<Rightarrow> ts) \<subseteq> U"
      using adjU[of nodeId] by (cases "adj nodeId") auto
    have "nodeId \<in> U" using qs qU by simp
    then have "U - set (st_visited s @ [nodeId]) \<subset> U - set (st_visited s)"
      using False by auto
    then have "card (U - set (st_visited s @ [nodeId])) < card (U - set (st_visited s))"
      using fin by (intro psubset_card_mono) auto
    then show ?thesis using qs qU False nb
      by (auto simp: propagateStep_def Let_def)
  qed
qed

lemma propagateLoop_invariant:
  assumes fin: "finite U"
    and adjU: "\<And>k ts. adj k = Some ts \<Longrightarrow> set ts \<subseteq> U"
    and step: "\<And>s. I s \<Longrightarrow> st_queue s \<noteq> [] \<Longrightarrow> I (propagateStep adj s)"
    and init: "I st" "set (st_queue st) \<subseteq> U"
  shows "\<exists>st'. propagateLoop adj st = Some st' \<and> I st' \<and> st_queue st' = []"
proof -
  have wf: "wf (measures [\<lambda>s. card (U - set (st_visited s)), \<lambda>s. length (st_queue s)])" by simp
  from init show ?thesis
proof (induction st rule: wf_induct_rule[OF wf])
  case (1 s)
  note 2 = 1
  show ?case
  proof (cases "st_queue s = []")
    case True
    then show ?thesis using 2(2) by (simp add: propagateLoop.simps)
  next
    case False
    from propagateStep_measure[OF fin adjU False 2(3)]
    have a: "set (st_queue (propagateStep adj s)) \<subseteq> U"
      and b: "(propagateStep adj s, s) \<in> measures [\<lambda>s. card (U - set (st_visited s)), \<lambda>s. length (st_queue s)]"
      by auto
    from 2(1)[OF b step[OF 2(2) False] a]
    show ?thesis using False by (subst propagateLoop.simps) simp
  qed
qed
qed

lemma forwardLoad_eq:
  "forwardLoad p nbrs m k =
     (if k \<in> set nbrs then Some (getOr0 m k + real (length (filter (\<lambda>x. x = k) nbrs)) * p) else m k)"
proof -
  define f where "f = (\<lambda>next m'. m'(next \<mapsto> getOr0 m' next + p))"
  have "fold f nbrs m k =
     (if k \<in> set nbrs then Some (getOr0 m k + real (length (filter (\<lambda>x. x = k) nbrs)) * p) else m k)"
  proof (induction nbrs arbitrary: m)
    case Nil
    show ?case by simp
  next
    case (Cons x xs)
    have e: "filter (\<lambda>y. y = j) xs = []" if "j \<notin> set xs" for j
      using that by (auto simp: filter_empty_conv)
    have fx: "f x m j = (if j = x then Some (getOr0 m x + p) else m j)" for j
      by (simp add: f_def)
    have gx: "getOr0 (f x m) j = (if j = x then getOr0 m x + p else getOr0 m j)" for j
      by (simp add: f_def getOr0_def)
    show ?case
      by (simp add: Cons.IH fx gx e algebra_simps)
  qed
  then show ?thesis by (simp add: forwardLoad_def f_def)
qed

lemma fillUnreached_eq:
  "fillUnreached nodes m k = (if m k = None \<and> k \<in> node_id ` set nodes then Some 0 else m k)"
  unfolding fillUnreached_def
  by (induction nodes arbitrary: m) auto

lemma pl_adj_targets:
  "pl_adj nodes edges k = Some ts \<Longrightarrow> set ts \<subseteq> target ` set edges"
  by (auto simp: pl_adj_eq split: if_splits)

lemma pl_init_queue: "set (st_queue (pl_init nodes edges L)) \<subseteq> node_id ` set nodes"
  by (auto simp: pl_init_def Let_def pl_sources_eq)

lemma propagateRun_invariant:
  assumes step: "\<And>s. I s \<Longrightarrow> st_queue s \<noteq> [] \<Longrightarrow> I (propagateStep (pl_adj nodes edges) s)"
    and init: "I (pl_init nodes edges L)"
  shows "\<exists>st'. propagateRun nodes edges L = Some st' \<and> I st' \<and> st_queue st' = []"
  unfolding propagateRun_def
proof (rule propagateLoop_invariant[where U = "node_id ` set nodes \<union> target ` set edges" and I = I])
  show "finite (node_id ` set nodes \<union> target ` set edges)" by simp
  show "\<And>k ts. pl_adj nodes edges k = Some ts \<Longrightarrow> set ts \<subseteq> node_id ` set nodes \<union> target ` set edges"
    using pl_adj_targets by blast
  show "\<And>s. I s \<Longrightarrow> st_queue s \<noteq> [] \<Longrightarrow> I (propagateStep (pl_adj nodes edges) s)" by (rule step)
  show "I (pl_init nodes edges L)" by (rule init)
  show "set (st_queue (pl_init nodes edges L)) \<subseteq> node_id ` set nodes \<union> target ` set edges"
    using pl_init_queue by blast
qed

definition pl_inv :: "Node list \<Rightarrow> Edge list \<Rightarrow> real \<Rightarrow> LoadState \<Rightarrow> bool" where
  "pl_inv nodes edges L st \<longleftrightarrow>
     distinct (st_visited st) \<and>
     (\<forall>n \<in> set nodes. node_id n \<notin> target ` set edges \<longrightarrow>
        st_loadMap st (node_id n) = Some (L / real (length (filter (\<lambda>n. node_id n \<notin> target ` set edges) nodes)))) \<and>
     (\<forall>k. st_loadMap st k \<noteq> None \<longrightarrow> reaches nodes edges k) \<and>
     (\<forall>k \<in> set (st_queue st). reaches nodes edges k)"

lemma pl_inv_init: "pl_inv nodes edges L (pl_init nodes edges L)"
proof -
  have "length (filter (\<lambda>n. node_id n \<notin> target ` set edges) nodes) > 0"
    if "n \<in> set nodes" "node_id n \<notin> target ` set edges" for n
    using that by (auto simp: filter_empty_conv)
  then show ?thesis
    by (auto simp: pl_inv_def pl_init_def Let_def pl_sources_eq fold_nodes_init
        intro: reaches_source split: if_splits)
qed

lemma pl_inv_step:
  assumes "pl_inv nodes edges L s" "st_queue s \<noteq> []"
  shows "pl_inv nodes edges L (propagateStep (pl_adj nodes edges) s)"
proof -
  from assms(2) obtain nodeId rest where qs: "st_queue s = nodeId # rest" by (cases "st_queue s") auto
  have r: "reaches nodes edges nodeId" using assms(1) qs by (simp add: pl_inv_def)
  have nb: "reaches nodes edges k \<and> k \<in> target ` set edges"
    if "pl_adj nodes edges nodeId = Some ts" "k \<in> set ts" for ts k
  proof -
    from that have "nodeId \<in> node_id ` set nodes"
      and "\<exists>e\<in>set edges. source e = nodeId \<and> target e = k"
      by (auto simp: pl_adj_eq split: if_splits)
    then show ?thesis using reaches_edge[OF r] by auto
  qed
  show ?thesis
  proof (cases "nodeId \<in> set (st_visited s)")
    case True
    then show ?thesis using assms(1) qs by (simp add: propagateStep_def pl_inv_def)
  next
    case False
    show ?thesis
    proof (cases "pl_adj nodes edges nodeId")
      case None
      then show ?thesis using assms(1) qs False by (simp add: propagateStep_def pl_inv_def)
    next
      case (Some ts)
      then show ?thesis using assms(1) qs False nb[OF Some]
        by (auto simp: propagateStep_def pl_inv_def Let_def forwardLoad_eq)
    qed
  qed
qed

lemma propagateRun_returns:
  "\<exists>st. propagateRun nodes edges L = Some st \<and> pl_inv nodes edges L st \<and> st_queue st = []"
  by (rule propagateRun_invariant[where I = "pl_inv nodes edges L"]) (auto intro: pl_inv_step pl_inv_init)



lemmas ex_defs = mkNode_def mkEdge_def chainNodes_def chainEdges_def fanNodes_def fanEdges_def
  islandNodes_def islandEdges_def cycleNodes_def cycleEdges_def mergeNodes_def mergeEdges_def

lemmas pl_eval = propagateLoad_def propagateRun_def pl_adj_def pl_init_def pl_sources_def pl_inDegree_def
   propagateLoop.simps propagateStep_def forwardLoad_def getOr0_def fillUnreached_def

lemma propagateStep_forward:
  assumes "st_queue st = nodeId # rest" "nodeId \<notin> set (st_visited st)" "nodeId \<in> node_id ` set nodes"
    and "filter (\<lambda>e. source e = nodeId) edges \<noteq> []"
  shows "getOr0 (st_loadMap (propagateStep (pl_adj nodes edges) st)) k =
           getOr0 (st_loadMap st) k
           + real (length (filter (\<lambda>e. target e = k) (filter (\<lambda>e. source e = nodeId) edges)))
             * (getOr0 (st_loadMap st) nodeId / real (length (filter (\<lambda>e. source e = nodeId) edges)))"
proof -
  let ?out = "filter (\<lambda>e. source e = nodeId) edges"
  have adj: "pl_adj nodes edges nodeId = Some (map target ?out)"
    using assms(3) by (simp add: pl_adj_eq)
  have cnt: "length (filter (\<lambda>x. x = k) (map target ?out)) = length (filter (\<lambda>e. target e = k) ?out)"
    by (simp add: filter_map o_def)
  have z: "k \<notin> target ` set ?out \<Longrightarrow> filter (\<lambda>e. target e = k) ?out = []"
    by (auto simp: filter_empty_conv)
  show ?thesis
    using assms(1,2,4) adj cnt z
    by (auto simp: propagateStep_def Let_def forwardLoad_eq getOr0_def)
qed

text \<open>
  Claim C8. For every graph and traffic load, \<open>propagateLoad\<close> returns a map in which
  every source node (a node no edge points to) holds the traffic load divided by the number
  of source nodes, and every node the traversal cannot reach holds 0. When the loop
  processes a node with outgoing edges, every outgoing edge adds the node's accumulated
  load divided by the number of its outgoing edges to the entry of the edge's target. In
  the chain A \<rightarrow> B \<rightarrow> C every node receives the full load; a source with load 1000
  and two outgoing edges to sibling leaves gives each leaf 500.
\<close>

theorem propagateLoad_distribution:
  "(\<exists>m. propagateLoad nodes edges trafficLoad = Some m \<and>
        (\<forall>n \<in> set nodes. node_id n \<notin> target ` set edges \<longrightarrow>
           m (node_id n) = Some (trafficLoad /
              real (length (filter (\<lambda>n. node_id n \<notin> target ` set edges) nodes)))) \<and>
        (\<forall>n \<in> set nodes. \<not> reaches nodes edges (node_id n) \<longrightarrow> m (node_id n) = Some 0)) \<and>
   (\<forall>st nodeId rest k.
        st_queue st = nodeId # rest \<and> nodeId \<notin> set (st_visited st) \<and>
        nodeId \<in> node_id ` set nodes \<and> filter (\<lambda>e. source e = nodeId) edges \<noteq> [] \<longrightarrow>
        getOr0 (st_loadMap (propagateStep (pl_adj nodes edges) st)) k =
           getOr0 (st_loadMap st) k
           + real (length (filter (\<lambda>e. target e = k) (filter (\<lambda>e. source e = nodeId) edges)))
             * (getOr0 (st_loadMap st) nodeId / real (length (filter (\<lambda>e. source e = nodeId) edges)))) \<and>
   (\<exists>m. propagateLoad chainNodes chainEdges trafficLoad = Some m \<and>
        m ''A'' = Some trafficLoad \<and> m ''B'' = Some trafficLoad \<and> m ''C'' = Some trafficLoad) \<and>
   (\<exists>m. propagateLoad fanNodes fanEdges 1000 = Some m \<and>
        m ''S'' = Some 1000 \<and> m ''L1'' = Some 500 \<and> m ''L2'' = Some 500)"
proof (intro conjI)
  from propagateRun_returns[of nodes edges trafficLoad]
  obtain st where run: "propagateRun nodes edges trafficLoad = Some st"
    and inv: "pl_inv nodes edges trafficLoad st" by blast
  let ?m = "fillUnreached nodes (st_loadMap st)"
  have "propagateLoad nodes edges trafficLoad = Some ?m"
    by (simp add: propagateLoad_def run)
  moreover have "\<forall>n \<in> set nodes. node_id n \<notin> target ` set edges \<longrightarrow>
           ?m (node_id n) = Some (trafficLoad /
              real (length (filter (\<lambda>n. node_id n \<notin> target ` set edges) nodes)))"
    using inv by (simp add: pl_inv_def fillUnreached_eq)
  moreover have "\<forall>n \<in> set nodes. \<not> reaches nodes edges (node_id n) \<longrightarrow> ?m (node_id n) = Some 0"
    using inv by (auto simp: pl_inv_def fillUnreached_eq)
  ultimately show "\<exists>m. propagateLoad nodes edges trafficLoad = Some m \<and>
        (\<forall>n \<in> set nodes. node_id n \<notin> target ` set edges \<longrightarrow>
           m (node_id n) = Some (trafficLoad /
              real (length (filter (\<lambda>n. node_id n \<notin> target ` set edges) nodes)))) \<and>
        (\<forall>n \<in> set nodes. \<not> reaches nodes edges (node_id n) \<longrightarrow> m (node_id n) = Some 0)"
    by blast
next
  show "\<forall>st nodeId rest k.
        st_queue st = nodeId # rest \<and> nodeId \<notin> set (st_visited st) \<and>
        nodeId \<in> node_id ` set nodes \<and> filter (\<lambda>e. source e = nodeId) edges \<noteq> [] \<longrightarrow>
        getOr0 (st_loadMap (propagateStep (pl_adj nodes edges) st)) k =
           getOr0 (st_loadMap st) k
           + real (length (filter (\<lambda>e. target e = k) (filter (\<lambda>e. source e = nodeId) edges)))
             * (getOr0 (st_loadMap st) nodeId / real (length (filter (\<lambda>e. source e = nodeId) edges)))"
    using propagateStep_forward by blast
next
  show "\<exists>m. propagateLoad chainNodes chainEdges trafficLoad = Some m \<and>
        m ''A'' = Some trafficLoad \<and> m ''B'' = Some trafficLoad \<and> m ''C'' = Some trafficLoad"
    by (simp add: pl_eval ex_defs)
next
  show "\<exists>m. propagateLoad fanNodes fanEdges 1000 = Some m \<and>
        m ''S'' = Some 1000 \<and> m ''L1'' = Some 500 \<and> m ''L2'' = Some 500"
    by (simp add: pl_eval ex_defs)
qed

text \<open>
  Witness for C8: two sources share the load 1000, and the cycle X \<rightarrow> Y \<rightarrow> X, which no
  source leads to, receives 0.
\<close>

lemma island_reaches: "reaches islandNodes islandEdges v \<Longrightarrow> v \<in> {''S1'', ''S2'', ''T''}"
  by (induction rule: reaches.induct) (auto simp: ex_defs)

theorem propagateLoad_distribution_witness:
  "\<exists>m. propagateLoad islandNodes islandEdges 1000 = Some m \<and>
       m ''S1'' = Some 500 \<and> m ''S2'' = Some 500 \<and> m ''X'' = Some 0 \<and> m ''Y'' = Some 0"
proof -
  from propagateLoad_distribution[of islandNodes islandEdges 1000]
  obtain m where m: "propagateLoad islandNodes islandEdges 1000 = Some m"
    and src: "\<forall>n \<in> set islandNodes. node_id n \<notin> target ` set islandEdges \<longrightarrow>
           m (node_id n) = Some (1000 /
              real (length (filter (\<lambda>n. node_id n \<notin> target ` set islandEdges) islandNodes)))"
    and unr: "\<forall>n \<in> set islandNodes. \<not> reaches islandNodes islandEdges (node_id n) \<longrightarrow> m (node_id n) = Some 0"
    by blast
  have nx: "\<not> reaches islandNodes islandEdges ''X''" and ny: "\<not> reaches islandNodes islandEdges ''Y''"
    using island_reaches by fastforce+
  have "m ''S1'' = Some 500"
    using src[rule_format, of "mkNode ''S1'' ''web-client'' 1"] by (simp add: ex_defs)
  moreover have "m ''S2'' = Some 500"
    using src[rule_format, of "mkNode ''S2'' ''web-client'' 1"] by (simp add: ex_defs)
  moreover have "m ''X'' = Some 0"
    using unr[rule_format, of "mkNode ''X'' ''web-server'' 1"] nx by (simp add: ex_defs)
  moreover have "m ''Y'' = Some 0"
    using unr[rule_format, of "mkNode ''Y'' ''web-server'' 1"] ny by (simp add: ex_defs)
  ultimately show ?thesis using m by blast
qed

text \<open>
  Claim C10. Load that arrives at a node after the node was processed is added to the
  node's entry and not forwarded: in the acyclic graph A \<rightarrow> C, A \<rightarrow> B1, B1 \<rightarrow> B2,
  B2 \<rightarrow> C, C \<rightarrow> E with load 1000 the returned map records 1000 at the merge node C,
  while its only successor E receives 500.
\<close>

theorem propagateLoad_merge_not_conserved:
  "\<exists>m. propagateLoad mergeNodes mergeEdges 1000 = Some m \<and>
       m ''A'' = Some 1000 \<and> m ''C'' = Some 1000 \<and> m ''E'' = Some 500"
  by (simp add: pl_eval ex_defs)

lemma propagateStep_visited_skip:
  "st_queue s \<noteq> [] \<Longrightarrow> hd (st_queue s) \<in> set (st_visited s) \<Longrightarrow>
     propagateStep adj s = s\<lparr>st_queue := tl (st_queue s)\<rparr>"
  by (cases "st_queue s") (auto simp: propagateStep_def)

lemma propagateStep_forward_once:
  "st_loadMap (propagateStep adj s) \<noteq> st_loadMap s \<Longrightarrow>
     st_queue s \<noteq> [] \<and> hd (st_queue s) \<notin> set (st_visited s) \<and>
     st_visited (propagateStep adj s) = st_visited s @ [hd (st_queue s)]"
  by (cases "st_queue s") (auto simp: propagateStep_def Let_def split: if_splits)

text \<open>
  Claim C9. For every finite graph, cyclic or not, \<open>propagateLoad\<close> returns: the loop
  reaches the empty queue. The list of processed nodes has no repetition; an iteration
  whose dequeued node is already visited only drops it from the queue; and an iteration
  that changes the load map is one that appends the dequeued, not yet visited node to the
  visited list. So load is forwarded out of each node at most once.
\<close>

theorem propagateLoad_terminates_visits_once:
  "(\<exists>st m. propagateRun nodes edges trafficLoad = Some st \<and>
           propagateLoad nodes edges trafficLoad = Some m \<and>
           st_queue st = [] \<and> distinct (st_visited st)) \<and>
   (\<forall>s. st_queue s \<noteq> [] \<and> hd (st_queue s) \<in> set (st_visited s) \<longrightarrow>
        propagateStep (pl_adj nodes edges) s = s\<lparr>st_queue := tl (st_queue s)\<rparr>) \<and>
   (\<forall>s. st_loadMap (propagateStep (pl_adj nodes edges) s) \<noteq> st_loadMap s \<longrightarrow>
        st_queue s \<noteq> [] \<and> hd (st_queue s) \<notin> set (st_visited s) \<and>
        st_visited (propagateStep (pl_adj nodes edges) s) = st_visited s @ [hd (st_queue s)])"
proof (intro conjI)
  from propagateRun_returns[of nodes edges trafficLoad]
  obtain st where run: "propagateRun nodes edges trafficLoad = Some st"
    and inv: "pl_inv nodes edges trafficLoad st" and q: "st_queue st = []" by blast
  then show "\<exists>st m. propagateRun nodes edges trafficLoad = Some st \<and>
           propagateLoad nodes edges trafficLoad = Some m \<and>
           st_queue st = [] \<and> distinct (st_visited st)"
    by (simp add: propagateLoad_def pl_inv_def)
next
  show "\<forall>s. st_queue s \<noteq> [] \<and> hd (st_queue s) \<in> set (st_visited s) \<longrightarrow>
        propagateStep (pl_adj nodes edges) s = s\<lparr>st_queue := tl (st_queue s)\<rparr>"
    using propagateStep_visited_skip by blast
next
  show "\<forall>s. st_loadMap (propagateStep (pl_adj nodes edges) s) \<noteq> st_loadMap s \<longrightarrow>
        st_queue s \<noteq> [] \<and> hd (st_queue s) \<notin> set (st_visited s) \<and>
        st_visited (propagateStep (pl_adj nodes edges) s) = st_visited s @ [hd (st_queue s)]"
    using propagateStep_forward_once by blast
qed

text \<open>
  Witness for C9: a source in front of the cycle A \<rightarrow> B \<rightarrow> A. The run ends after
  processing S, A, B once each; the second arrival at A is dropped.
\<close>

theorem propagateLoad_terminates_visits_once_witness:
  "\<exists>st m. propagateRun cycleNodes cycleEdges 100 = Some st \<and>
          propagateLoad cycleNodes cycleEdges 100 = Some m \<and>
          st_visited st = [''S'', ''A'', ''B''] \<and> distinct (st_visited st) \<and>
          m ''S'' = Some 100 \<and> m ''A'' = Some 200 \<and> m ''B'' = Some 100 \<and>
          propagateStep (pl_adj cycleNodes cycleEdges)
            \<lparr> st_queue = [''A''], st_visited = [''S'', ''A'', ''B''], st_loadMap = st_loadMap st \<rparr>
          = \<lparr> st_queue = [], st_visited = [''S'', ''A'', ''B''], st_loadMap = st_loadMap st \<rparr>"
proof -
  from propagateLoad_terminates_visits_once[of cycleNodes cycleEdges 100]
  obtain st m where run: "propagateRun cycleNodes cycleEdges 100 = Some st"
    and m: "propagateLoad cycleNodes cycleEdges 100 = Some m"
    and d: "distinct (st_visited st)"
    and skip: "\<forall>s. st_queue s \<noteq> [] \<and> hd (st_queue s) \<in> set (st_visited s) \<longrightarrow>
        propagateStep (pl_adj cycleNodes cycleEdges) s = s\<lparr>st_queue := tl (st_queue s)\<rparr>"
    by blast
  have v: "st_visited st = [''S'', ''A'', ''B'']"
    using run by (auto simp add: pl_eval ex_defs)
  have mv: "m ''S'' = Some 100 \<and> m ''A'' = Some 200 \<and> m ''B'' = Some 100"
    using m by (auto simp add: pl_eval ex_defs)
  have "propagateStep (pl_adj cycleNodes cycleEdges)
            \<lparr> st_queue = [''A''], st_visited = [''S'', ''A'', ''B''], st_loadMap = st_loadMap st \<rparr>
          = \<lparr> st_queue = [], st_visited = [''S'', ''A'', ''B''], st_loadMap = st_loadMap st \<rparr>"
    using skip[rule_format, of "\<lparr> st_queue = [''A''], st_visited = [''S'', ''A'', ''B''], st_loadMap = st_loadMap st \<rparr>"]
    by simp
  then show ?thesis using run m d v mv by blast
qed



section \<open>Topology analysis: lemmas\<close>

lemmas topo_eval = dfs.simps analyzeTopology_def findCriticalPath_def findSPOFs_def findBottleneck_def
  findRedundancyGroups_def typeCheck_def buildAdjacencyList_def findSourceNodes_def findSinkNodes_def
  getNodeLatency_def nodeMap_get_def findNode_def firstNodeFallback_def remainingAdj_def disconnects_def
  isClientOrObservability_def uniq_def structuralSpofs_def criticalPathSpofs_def replicasOr1_def adj_get_def

lemma chain_criticalPath: "criticalPath (analyzeTopology exampleCatalog chainNodes chainEdges) = [''A'', ''B'', ''C'']"
  by (simp add: topo_eval ex_defs exampleCatalog_def Let_def)

lemma chain_spofs: "spofNodeIds (analyzeTopology exampleCatalog chainNodes chainEdges) = [''B'', ''C'']"
  by (simp add: topo_eval ex_defs exampleCatalog_def Let_def)


lemma uniq_fold_set:
  "set (fold (\<lambda>x acc. if x \<in> set acc then acc else acc @ [x]) xs acc0) = set acc0 \<union> set xs"
  by (induction xs arbitrary: acc0) auto

lemma uniq_fold_distinct:
  "distinct acc0 \<Longrightarrow> distinct (fold (\<lambda>x acc. if x \<in> set acc then acc else acc @ [x]) xs acc0)"
  by (induction xs arbitrary: acc0) auto

lemma set_uniq: "set (uniq xs) = set xs"
  by (simp add: uniq_def uniq_fold_set)

lemma distinct_uniq: "distinct (uniq xs)"
  by (simp add: uniq_def uniq_fold_distinct)

lemma findNode_Some: "findNode nodes k = Some n \<Longrightarrow> n \<in> set nodes \<and> node_id n = k"
  unfolding findNode_def by (induction nodes) (auto split: if_splits)

lemma findNode_distinct:
  "distinct (map node_id nodes) \<Longrightarrow> n \<in> set nodes \<Longrightarrow> findNode nodes (node_id n) = Some n"
  unfolding findNode_def by (induction nodes) (auto simp: image_iff)

lemma criticalPathSpofs_set:
  "set (criticalPathSpofs cmap nodes cp spofs0) =
     set spofs0 \<union> {nid \<in> set cp. \<exists>node. findNode nodes nid = Some node \<and>
                          \<not> isClientOrObservability cmap node \<and> replicas (config (data node)) \<le> 1}"
  unfolding criticalPathSpofs_def
  by (induction cp arbitrary: spofs0) (auto split: option.splits)

lemma structuralSpofs_subset:
  "set (structuralSpofs cmap nodes edges) \<subseteq>
     {node_id node | node. node \<in> set nodes \<and> \<not> isClientOrObservability cmap node \<and>
                           \<not> replicas (config (data node)) > 1}"
  by (auto simp: structuralSpofs_def Let_def)

lemma findSPOFs_subset:
  assumes "length nodes > 1" "nid \<in> set (findSPOFs cmap nodes edges)"
  shows "\<exists>node \<in> set nodes. node_id node = nid \<and> \<not> isClientOrObservability cmap node \<and>
            replicas (config (data node)) \<le> 1"
proof -
  from assms have "nid \<in> set (structuralSpofs cmap nodes edges) \<or>
      (\<exists>node. findNode nodes nid = Some node \<and> \<not> isClientOrObservability cmap node \<and>
          replicas (config (data node)) \<le> 1)"
    by (auto simp: findSPOFs_def set_uniq criticalPathSpofs_set)
  then show ?thesis
  proof
    assume "nid \<in> set (structuralSpofs cmap nodes edges)"
    then show ?thesis using structuralSpofs_subset[of cmap nodes edges] by force
  next
    assume "\<exists>node. findNode nodes nid = Some node \<and> \<not> isClientOrObservability cmap node \<and>
          replicas (config (data node)) \<le> 1"
    then show ?thesis using findNode_Some by blast
  qed
qed

lemma spofNodeIds_analyzeTopology:
  "spofNodeIds (analyzeTopology cmap nodes edges) = (if length nodes = 0 then [] else findSPOFs cmap nodes edges)"
  by (simp add: analyzeTopology_def Let_def split: prod.splits)

text \<open>
  Claim C4, amended. In a graph of at least two nodes with pairwise distinct ids, no node
  whose catalog category is clients or observability is listed in the
  \<open>spofNodeIds\<close> of \<open>analyzeTopology\<close>: both rules skip such nodes.
\<close>

theorem spof_excludes_clients_observability:
  assumes "distinct (map node_id nodes)" "length nodes > 1" "n \<in> set nodes"
    and "cmap (componentType (data n)) = Some d"
    and "category d = clients \<or> category d = observability"
  shows "node_id n \<notin> set (spofNodeIds (analyzeTopology cmap nodes edges))"
proof
  assume "node_id n \<in> set (spofNodeIds (analyzeTopology cmap nodes edges))"
  then have "node_id n \<in> set (findSPOFs cmap nodes edges)"
    using assms(2) by (cases nodes) (simp_all add: spofNodeIds_analyzeTopology)
  from findSPOFs_subset[OF assms(2) this]
  obtain node where node: "node \<in> set nodes" "node_id node = node_id n"
    "\<not> isClientOrObservability cmap node" by blast
  have "node = n" using assms(1,3) node(1,2) by (meson distinct_map inj_onD)
  then show False using node(3) assms(4,5) by (simp add: isClientOrObservability_def)
qed

text \<open>
  Witness for C4: in the chain client A \<rightarrow> server B \<rightarrow> database C, the client lies on
  the critical path and is not listed, while the server is.
\<close>

theorem spof_excludes_clients_observability_witness:
  "distinct (map node_id chainNodes) \<and> length chainNodes > 1 \<and>
   mkNode ''A'' ''web-client'' 1 \<in> set chainNodes \<and>
   category (the (exampleCatalog ''web-client'')) = clients \<and>
   ''A'' \<in> set (criticalPath (analyzeTopology exampleCatalog chainNodes chainEdges)) \<and>
   ''A'' \<notin> set (spofNodeIds (analyzeTopology exampleCatalog chainNodes chainEdges)) \<and>
   ''B'' \<in> set (spofNodeIds (analyzeTopology exampleCatalog chainNodes chainEdges))"
proof -
  have d: "distinct (map node_id chainNodes)" and l: "length chainNodes > 1"
    and m: "mkNode ''A'' ''web-client'' 1 \<in> set chainNodes"
    by (simp_all add: ex_defs)
  have c: "exampleCatalog (componentType (data (mkNode ''A'' ''web-client'' 1)))
           = Some (the (exampleCatalog ''web-client''))"
    by (simp add: ex_defs exampleCatalog_def)
  have k: "category (the (exampleCatalog ''web-client'')) = clients"
    by (simp add: exampleCatalog_def)
  from spof_excludes_clients_observability[where nodes = chainNodes and n = "mkNode ''A'' ''web-client'' 1"
      and cmap = exampleCatalog and d = "the (exampleCatalog ''web-client'')" and edges = chainEdges, OF d l m c] k
  have "''A'' \<notin> set (spofNodeIds (analyzeTopology exampleCatalog chainNodes chainEdges))"
    by (simp add: ex_defs)
  then show ?thesis using d l m k chain_criticalPath chain_spofs by simp
qed

text \<open>
  Counterexample to C4 as stated: \<open>findSPOFs\<close> returns every node id when the graph
  has at most one node, so a graph of one client node lists that client.
\<close>

theorem spof_single_client_counterexample:
  "isClientOrObservability exampleCatalog (mkNode ''c1'' ''web-client'' 1) \<and>
   node_id (mkNode ''c1'' ''web-client'' 1)
     \<in> set (spofNodeIds (analyzeTopology exampleCatalog [mkNode ''c1'' ''web-client'' 1] []))"
  by (simp add: topo_eval ex_defs exampleCatalog_def Let_def)

lemma setReplicas_length: "length (setReplicas nid r nodes) = length nodes"
  by (simp add: setReplicas_def)

lemma withReplicas_replicas: "replicas (config (data (withReplicas r n))) = r"
  by (simp add: withReplicas_def)

lemma withReplicas_id: "node_id (withReplicas r n) = node_id n"
  by (simp add: withReplicas_def)

lemma setReplicas_replicas:
  assumes "node \<in> set (setReplicas nid r nodes)" "node_id node = nid"
  shows "replicas (config (data node)) = r"
proof -
  from assms(1) obtain n where n: "n \<in> set nodes"
    and node: "node = (if node_id n = nid then withReplicas r n else n)"
    unfolding setReplicas_def by auto
  show ?thesis
  proof (cases "node_id n = nid")
    case True
    then show ?thesis using node by (simp add: withReplicas_replicas)
  next
    case False
    then show ?thesis using node assms(2) by simp
  qed
qed


text \<open>
  Claim C3, amended. In a graph of at least two nodes, a node listed in
  \<open>spofNodeIds\<close> is no longer listed once its replica count is raised to 2, all other
  nodes and all edges unchanged.
\<close>

theorem spof_removed_by_second_replica:
  assumes "length nodes > 1"
    and "nid \<in> set (spofNodeIds (analyzeTopology cmap nodes edges))"
  shows "nid \<notin> set (spofNodeIds (analyzeTopology cmap (setReplicas nid 2 nodes) edges))"
proof
  assume "nid \<in> set (spofNodeIds (analyzeTopology cmap (setReplicas nid 2 nodes) edges))"
  then have "nid \<in> set (findSPOFs cmap (setReplicas nid 2 nodes) edges)"
    using assms(1) by (cases nodes) (simp_all add: spofNodeIds_analyzeTopology setReplicas_length)
  moreover have "length (setReplicas nid 2 nodes) > 1"
    using assms(1) by (simp add: setReplicas_length)
  ultimately obtain node where "node \<in> set (setReplicas nid 2 nodes)" "node_id node = nid"
    "replicas (config (data node)) \<le> 1"
    using findSPOFs_subset by blast
  then show False using setReplicas_replicas[of node nid 2 nodes] by simp
qed

text \<open>
  Witness for C3: the server of the chain client \<rightarrow> server \<rightarrow> database is listed, and
  with two replicas only the database remains.
\<close>

theorem spof_removed_by_second_replica_witness:
  "length chainNodes > 1 \<and>
   ''B'' \<in> set (spofNodeIds (analyzeTopology exampleCatalog chainNodes chainEdges)) \<and>
   ''B'' \<notin> set (spofNodeIds (analyzeTopology exampleCatalog (setReplicas ''B'' 2 chainNodes) chainEdges)) \<and>
   spofNodeIds (analyzeTopology exampleCatalog (setReplicas ''B'' 2 chainNodes) chainEdges) = [''C'']"
proof -
  have l: "length chainNodes > 1" by (simp add: ex_defs)
  have b: "''B'' \<in> set (spofNodeIds (analyzeTopology exampleCatalog chainNodes chainEdges))"
    by (simp add: chain_spofs)
  have e: "spofNodeIds (analyzeTopology exampleCatalog (setReplicas ''B'' 2 chainNodes) chainEdges) = [''C'']"
    by (simp add: topo_eval ex_defs exampleCatalog_def Let_def setReplicas_def withReplicas_def)
  from spof_removed_by_second_replica[OF l b] l b e show ?thesis by simp
qed

text \<open>
  Counterexample to C3 as stated: the only node of a one-node graph is listed whatever its
  replica count, so it stays listed with two replicas.
\<close>

theorem spof_single_node_counterexample:
  "''s'' \<in> set (spofNodeIds (analyzeTopology exampleCatalog [mkNode ''s'' ''web-server'' 1] [])) \<and>
   ''s'' \<in> set (spofNodeIds (analyzeTopology exampleCatalog
                     (setReplicas ''s'' 2 [mkNode ''s'' ''web-server'' 1]) [])) \<and>
   replicas (config (data (hd (setReplicas ''s'' 2 [mkNode ''s'' ''web-server'' 1])))) = 2"
  by (simp add: topo_eval ex_defs exampleCatalog_def Let_def setReplicas_def withReplicas_def)



section \<open>Metrics: lemmas\<close>

lemma availability_fold:
  "fold (\<lambda>spofId u.
            case findNode nodes spofId of
              None \<Rightarrow> u
            | Some node \<Rightarrow>
                (case cmap (componentType (data node)) of
                   None \<Rightarrow> u
                 | Some d \<Rightarrow> u * (1 - availabilitySLA d)))
        xs u0
   = u0 * prod_list (map (unavailabilityOf cmap nodes) xs)"
  by (induction xs arbitrary: u0) (auto simp: unavailabilityOf_def split: option.splits)

lemma computeAvailability_eq:
  "computeAvailability cmap nodes topology =
     (if nodes = [] then 0
      else if spofNodeIds topology = [] then 0.99999
      else min 0.99999 (1 - prod_list (map (unavailabilityOf cmap nodes) (spofNodeIds topology))))"
  by (simp add: computeAvailability_def availability_fold Let_def)

lemma unavailabilityOf_range:
  assumes "\<forall>k d. cmap k = Some d \<longrightarrow> 0 \<le> availabilitySLA d \<and> availabilitySLA d \<le> 1"
  shows "0 \<le> unavailabilityOf cmap nodes nid \<and> unavailabilityOf cmap nodes nid \<le> 1"
  using assms by (auto simp: unavailabilityOf_def split: option.splits)

lemma prod_list_unit_interval:
  "(\<And>x. x \<in> set xs \<Longrightarrow> 0 \<le> f x \<and> f x \<le> (1::real)) \<Longrightarrow>
     0 \<le> prod_list (map f xs) \<and> prod_list (map f xs) \<le> 1"
proof (induction xs)
  case Nil
  show ?case by simp
next
  case (Cons x xs)
  then have a: "0 \<le> f x" "f x \<le> 1" "0 \<le> prod_list (map f xs)" "prod_list (map f xs) \<le> 1"
    by auto
  then have "f x * prod_list (map f xs) \<le> 1 * 1"
    by (intro mult_mono) auto
  then show ?case using a by simp
qed

lemma findSPOFs_distinct: "distinct (map node_id nodes) \<or> length nodes > 1 \<Longrightarrow> distinct (findSPOFs cmap nodes edges)"
  by (cases nodes) (auto simp: findSPOFs_def distinct_uniq)

lemma spofNodeIds_distinct: "distinct (spofNodeIds (analyzeTopology cmap nodes edges))"
proof (cases "length nodes \<le> 1")
  case True
  then have "distinct (map node_id nodes)" by (cases nodes) auto
  then show ?thesis by (simp add: spofNodeIds_analyzeTopology findSPOFs_distinct)
next
  case False
  then show ?thesis by (simp add: spofNodeIds_analyzeTopology findSPOFs_distinct)
qed

lemma availability_computeMetrics:
  "availability (computeMetrics cmap nodes edges L) =
     computeAvailability cmap nodes (analyzeTopology cmap nodes edges)"
  by (simp add: computeMetrics_def Let_def)

text \<open>
  Claim C5, amended. With every catalog SLA in [0, 1], the availability of
  \<open>computeMetrics\<close> lies in [0, 0.99999]. It is 0 for the empty graph; for a non-empty
  graph without SPOFs it is exactly 0.99999; with SPOFs it is 1 minus the product of
  (1 - availabilitySLA) over the SPOF nodes that have a catalog entry, capped at 0.99999.
\<close>

theorem availability_bounds_and_formula:
  assumes "\<forall>k d. cmap k = Some d \<longrightarrow> 0 \<le> availabilitySLA d \<and> availabilitySLA d \<le> 1"
  shows "0 \<le> availability (computeMetrics cmap nodes edges trafficLoad) \<and>
         availability (computeMetrics cmap nodes edges trafficLoad) \<le> 0.99999 \<and>
         (nodes = [] \<longrightarrow> availability (computeMetrics cmap nodes edges trafficLoad) = 0) \<and>
         (nodes \<noteq> [] \<and> spofNodeIds (analyzeTopology cmap nodes edges) = [] \<longrightarrow>
            availability (computeMetrics cmap nodes edges trafficLoad) = 0.99999) \<and>
         (spofNodeIds (analyzeTopology cmap nodes edges) \<noteq> [] \<longrightarrow>
            availability (computeMetrics cmap nodes edges trafficLoad) =
              min 0.99999 (1 - (\<Prod>nid \<in> set (spofNodeIds (analyzeTopology cmap nodes edges)).
                                  unavailabilityOf cmap nodes nid)))"
proof -
  let ?spofs = "spofNodeIds (analyzeTopology cmap nodes edges)"
  let ?p = "prod_list (map (unavailabilityOf cmap nodes) ?spofs)"
  have p: "0 \<le> ?p \<and> ?p \<le> 1"
    by (rule prod_list_unit_interval) (use unavailabilityOf_range[OF assms] in blast)
  have s: "(\<Prod>nid \<in> set ?spofs. unavailabilityOf cmap nodes nid) = ?p"
    using spofNodeIds_distinct by (simp add: prod.distinct_set_conv_list)
  have e: "nodes = [] \<Longrightarrow> ?spofs = []"
    by (simp add: spofNodeIds_analyzeTopology)
  show ?thesis
    unfolding availability_computeMetrics computeAvailability_eq s
    using p e by (auto simp: min_def)
qed



lemma exampleCatalog_sla:
  "\<forall>k d. exampleCatalog k = Some d \<longrightarrow> 0 \<le> availabilitySLA d \<and> availabilitySLA d \<le> 1"
  by (auto simp: exampleCatalog_def split: if_splits)

lemma fan_spofs: "spofNodeIds (analyzeTopology exampleCatalog fanNodes fanEdges) = [''L1'']"
  by (simp add: topo_eval ex_defs exampleCatalog_def Let_def)

lemma fan_criticalPath: "criticalPath (analyzeTopology exampleCatalog fanNodes fanEdges) = [''S'', ''L1'']"
  by (simp add: topo_eval ex_defs exampleCatalog_def Let_def)

text \<open>
  Witness for C5: in the fan-out graph the only SPOF is the server L1 with SLA 0.999, and
  the availability is 0.999.
\<close>

theorem availability_bounds_and_formula_witness:
  "spofNodeIds (analyzeTopology exampleCatalog fanNodes fanEdges) = [''L1''] \<and>
   unavailabilityOf exampleCatalog fanNodes ''L1'' = 1 / 1000 \<and>
   availability (computeMetrics exampleCatalog fanNodes fanEdges 1500) = 999 / 1000 \<and>
   0 \<le> availability (computeMetrics exampleCatalog fanNodes fanEdges 1500) \<and>
   availability (computeMetrics exampleCatalog fanNodes fanEdges 1500) \<le> 0.99999"
proof -
  have u: "unavailabilityOf exampleCatalog fanNodes ''L1'' = 1 / 1000"
    by (simp add: unavailabilityOf_def findNode_def ex_defs exampleCatalog_def)
  from availability_bounds_and_formula[OF exampleCatalog_sla, of fanNodes fanEdges 1500]
  show ?thesis by (simp add: fan_spofs u)
qed

text \<open>
  Counterexample to C5 as stated: the empty graph has no SPOFs, and its availability is 0,
  not 0.99999.
\<close>

theorem availability_empty_graph_counterexample:
  "spofNodeIds (analyzeTopology exampleCatalog [] []) = [] \<and>
   availability (computeMetrics exampleCatalog [] [] 100) = 0 \<and>
   availability (computeMetrics exampleCatalog [] [] 100) \<noteq> 0.99999"
  by (simp add: computeMetrics_def computeAvailability_def analyzeTopology_def Let_def)


lemma errorRate_fold:
  "fold (\<lambda>nid maxErrorRate.
            case findNode nodes nid of
              None \<Rightarrow> maxErrorRate
            | Some node \<Rightarrow>
                (case cmap (componentType (data node)) of
                   None \<Rightarrow> maxErrorRate
                 | Some d \<Rightarrow>
                     if category d = clients then maxErrorRate
                     else
                       let capacity = maxThroughput d * replicasOr1 node;
                           errorRate = nodeErrorRate d L capacity
                       in if errorRate > maxErrorRate then errorRate else maxErrorRate))
        xs m0
   = fold max (map (\<lambda>(node, d). nodeErrorRate d L (maxThroughput d * replicasOr1 node))
                   (nonClientOnPath cmap nodes xs)) m0"
  by (induction xs arbitrary: m0) (auto simp: nonClientOnPath_def Let_def max_def split: option.splits)

lemma fold_max_Max: "fold max es (m0::real) = Max (insert m0 (set es))"
proof (induction es arbitrary: m0)
  case Nil
  show ?case by simp
next
  case (Cons e es)
  have "Max (insert (max e m0) (set es)) = Max (insert m0 (insert e (set es)))"
    by (cases "set es = {}") (auto simp: max.commute max.left_commute)
  then show ?case by (simp add: Cons.IH)
qed

lemma replicasOr1_nonzero: "replicasOr1 node \<noteq> 0"
  by (simp add: replicasOr1_def)

lemma nodeErrorRate_claimed:
  "capacity \<noteq> 0 \<Longrightarrow> nodeErrorRate d L capacity = claimedErrorTerm (failureRateAtCapacity d) (L / capacity)"
  by (simp add: nodeErrorRate_def claimedErrorTerm_def Let_def)

lemma nonClientOnPath_catalog:
  "(node, d) \<in> set (nonClientOnPath cmap nodes xs) \<Longrightarrow>
     cmap (componentType (data node)) = Some d \<and> category d \<noteq> clients"
  by (auto simp: nonClientOnPath_def split: option.splits if_splits)

lemma failedOnPath_iff:
  "failedOnPath nodes path \<longleftrightarrow>
     (\<exists>nid \<in> set path. \<exists>node. findNode nodes nid = Some node \<and> isFailed (data node))"
  by (auto simp: failedOnPath_def list_ex_iff split: option.splits)

lemma errorRate_computeMetrics:
  "errorRate (computeMetrics cmap nodes edges L) =
     computeErrorRate cmap nodes (analyzeTopology cmap nodes edges) L"
  by (simp add: computeMetrics_def Let_def)

lemma maxErrorRateOnPath_Max:
  assumes "\<forall>k d. cmap k = Some d \<and> category d \<noteq> clients \<longrightarrow> maxThroughput d \<noteq> 0"
  shows "maxErrorRateOnPath cmap nodes path L =
     Max (insert 0
        ((\<lambda>(node, d). claimedErrorTerm (failureRateAtCapacity d)
                          (L / (maxThroughput d * replicasOr1 node)))
         ` set (nonClientOnPath cmap nodes path)))"
proof -
  have t: "map (\<lambda>(node, d). nodeErrorRate d L (maxThroughput d * replicasOr1 node))
               (nonClientOnPath cmap nodes path)
         = map (\<lambda>(node, d). claimedErrorTerm (failureRateAtCapacity d)
                                  (L / (maxThroughput d * replicasOr1 node)))
               (nonClientOnPath cmap nodes path)"
  proof (rule map_cong[OF refl])
    fix x assume x: "x \<in> set (nonClientOnPath cmap nodes path)"
    obtain node d where nd: "x = (node, d)" by (cases x)
    then have "cmap (componentType (data node)) = Some d \<and> category d \<noteq> clients"
      using x nonClientOnPath_catalog by blast
    then have "maxThroughput d * replicasOr1 node \<noteq> 0"
      using assms replicasOr1_nonzero by auto
    then show "(case x of (node, d) \<Rightarrow> nodeErrorRate d L (maxThroughput d * replicasOr1 node))
       = (case x of (node, d) \<Rightarrow> claimedErrorTerm (failureRateAtCapacity d)
                                  (L / (maxThroughput d * replicasOr1 node)))"
      using nd by (simp add: nodeErrorRate_claimed)
  qed
  show ?thesis
    unfolding maxErrorRateOnPath_def errorRate_fold t fold_max_Max
    by simp
qed

lemma js_round_multiple: "\<exists>k::int. js_round y / 10000 = real_of_int k / 10000"
  unfolding js_round_def by blast

lemma js_round_near: "\<bar>js_round (x * 10000) / 10000 - x\<bar> \<le> 1 / 20000"
proof -
  define n where "n = real_of_int \<lfloor>x * 10000 + 1 / 2\<rfloor>"
  have "n \<le> x * 10000 + 1 / 2" and "x * 10000 + 1 / 2 < n + 1"
    unfolding n_def by linarith+
  then have "n / 10000 - x \<le> 1 / 20000" and "x - n / 10000 \<le> 1 / 20000"
    by (simp_all add: field_simps)
  then have "\<bar>n / 10000 - x\<bar> \<le> 1 / 20000"
    by linarith
  then show ?thesis unfolding js_round_def n_def .
qed

text \<open>
  Claim C1, amended. With every non-client catalog capacity non-zero: the maximum that the
  loop of \<open>computeErrorRate\<close> holds when it ends is the maximum (at least 0) of the claimed
  error term over the non-client nodes on the critical path that have a catalog entry,
  where the load ratio of each node is the whole traffic load divided by the node's
  effective capacity. The error rate of \<open>computeMetrics\<close> is 0 for an empty critical
  path, 1 when a node on the critical path is marked failed, and otherwise that maximum
  rounded to the fourth decimal: a multiple of 0.0001 that lies at most 0.00005 from it.
  The statement does not say to which of its two neighbours a maximum halfway between two
  multiples of 0.0001 is rounded.
\<close>

theorem errorRate_is_max_over_critical_path:
  assumes "\<forall>k d. cmap k = Some d \<and> category d \<noteq> clients \<longrightarrow> maxThroughput d \<noteq> 0"
  shows "let cp = criticalPath (analyzeTopology cmap nodes edges);
             M = Max (insert 0
                   ((\<lambda>(node, d). claimedErrorTerm (failureRateAtCapacity d)
                                     (trafficLoad / (maxThroughput d * replicasOr1 node)))
                    ` set (nonClientOnPath cmap nodes cp)));
             isFailedOnPath = (\<exists>nid \<in> set cp. \<exists>node. findNode nodes nid = Some node \<and> isFailed (data node));
             e = errorRate (computeMetrics cmap nodes edges trafficLoad)
         in maxErrorRateOnPath cmap nodes cp trafficLoad = M \<and>
            (cp = [] \<longrightarrow> e = 0) \<and>
            (cp \<noteq> [] \<and> isFailedOnPath \<longrightarrow> e = 1) \<and>
            (cp \<noteq> [] \<and> \<not> isFailedOnPath \<longrightarrow>
               (\<exists>k::int. e = real_of_int k / 10000) \<and> \<bar>e - M\<bar> \<le> 1 / 20000)"
proof -
  let ?cp = "criticalPath (analyzeTopology cmap nodes edges)"
  let ?m = "maxErrorRateOnPath cmap nodes ?cp trafficLoad"
  let ?e = "errorRate (computeMetrics cmap nodes edges trafficLoad)"
  have e: "?e = (if ?cp = [] then 0
                 else if failedOnPath nodes ?cp then 1
                 else js_round (?m * 10000) / 10000)"
    by (simp add: errorRate_computeMetrics computeErrorRate_def Let_def)
  have c1: "?cp = [] \<longrightarrow> ?e = 0"
    using e by simp
  have c2: "?cp \<noteq> [] \<and> failedOnPath nodes ?cp \<longrightarrow> ?e = 1"
    using e by simp
  have c3: "?cp \<noteq> [] \<and> \<not> failedOnPath nodes ?cp \<longrightarrow>
              (\<exists>k::int. ?e = real_of_int k / 10000) \<and> \<bar>?e - ?m\<bar> \<le> 1 / 20000"
    using e js_round_near[of ?m] js_round_multiple[of "?m * 10000"] by simp
  show ?thesis
    unfolding Let_def maxErrorRateOnPath_Max[OF assms, symmetric] failedOnPath_iff[symmetric]
    using c1 c2 c3 by blast
qed

lemma exampleCatalog_capacity:
  "\<forall>k d. exampleCatalog k = Some d \<and> category d \<noteq> clients \<longrightarrow> maxThroughput d \<noteq> 0"
  by (auto simp: exampleCatalog_def split: if_splits)

lemma fan_errorRate: "errorRate (computeMetrics exampleCatalog fanNodes fanEdges 1500) = 3 / 10"
  unfolding errorRate_computeMetrics computeErrorRate_def maxErrorRateOnPath_def fan_criticalPath
  by (simp add: nodeErrorRate_def failedOnPath_def
      js_round_def findNode_def replicasOr1_def ex_defs exampleCatalog_def Let_def)

lemma fan_maxErrorRateOnPath:
  "maxErrorRateOnPath exampleCatalog fanNodes [''S'', ''L1''] 1500 = 3 / 10"
  unfolding maxErrorRateOnPath_def
  by (simp add: nodeErrorRate_def findNode_def replicasOr1_def ex_defs exampleCatalog_def Let_def)

text \<open>
  Witness for C1: the fan-out graph under load 1500; the server L1 (capacity 1000, failure
  rate 0.05) has load ratio 1.5 and error term 0.3, which is the maximum and, being a
  multiple of 0.0001, also the reported error rate.
\<close>

theorem errorRate_is_max_over_critical_path_witness:
  "criticalPath (analyzeTopology exampleCatalog fanNodes fanEdges) = [''S'', ''L1''] \<and>
   Max (insert 0
      ((\<lambda>(node, d). claimedErrorTerm (failureRateAtCapacity d)
                        (1500 / (maxThroughput d * replicasOr1 node)))
       ` set (nonClientOnPath exampleCatalog fanNodes [''S'', ''L1'']))) = 3 / 10 \<and>
   errorRate (computeMetrics exampleCatalog fanNodes fanEdges 1500) = 3 / 10 \<and>
   \<bar>errorRate (computeMetrics exampleCatalog fanNodes fanEdges 1500) - 3 / 10\<bar> \<le> 1 / 20000"
proof -
  define M where "M = Max (insert 0
      ((\<lambda>(node, d). claimedErrorTerm (failureRateAtCapacity d)
                        (1500 / (maxThroughput d * replicasOr1 node)))
       ` set (nonClientOnPath exampleCatalog fanNodes [''S'', ''L1''])))"
  define e where "e = errorRate (computeMetrics exampleCatalog fanNodes fanEdges 1500)"
  have nf: "\<not> (\<exists>nid \<in> set [''S'', ''L1'']. \<exists>node. findNode fanNodes nid = Some node \<and> isFailed (data node))"
    by (simp add: findNode_def ex_defs)
  have th: "maxErrorRateOnPath exampleCatalog fanNodes [''S'', ''L1''] 1500 = M \<and>
            ([''S'', ''L1''] = ([] :: string list) \<longrightarrow> e = 0) \<and>
            ([''S'', ''L1''] \<noteq> ([] :: string list) \<and>
               (\<exists>nid \<in> set [''S'', ''L1''].
                   \<exists>node. findNode fanNodes nid = Some node \<and> isFailed (data node)) \<longrightarrow> e = 1) \<and>
            ([''S'', ''L1''] \<noteq> ([] :: string list) \<and>
               \<not> (\<exists>nid \<in> set [''S'', ''L1''].
                   \<exists>node. findNode fanNodes nid = Some node \<and> isFailed (data node)) \<longrightarrow>
               (\<exists>k::int. e = real_of_int k / 10000) \<and> \<bar>e - M\<bar> \<le> 1 / 20000)"
    using errorRate_is_max_over_critical_path[OF exampleCatalog_capacity, of fanNodes fanEdges 1500]
    unfolding Let_def fan_criticalPath M_def e_def .
  from th have m: "M = 3 / 10"
    using fan_maxErrorRateOnPath by simp
  from th nf have "\<bar>e - M\<bar> \<le> 1 / 20000"
    by blast
  then have "\<bar>e - 3 / 10\<bar> \<le> 1 / 20000"
    unfolding m .
  then show ?thesis
    using m fan_criticalPath fan_errorRate unfolding M_def e_def by blast
qed

text \<open>
  Counterexample to C1 as stated: in the fan-out graph under load 1500 the propagated load
  of L1 is 750, so the claimed rate is 0; \<open>computeMetrics\<close> reports 0.3.
\<close>

theorem errorRate_uses_traffic_load_counterexample:
  "errorRate (computeMetrics exampleCatalog fanNodes fanEdges 1500) = 3 / 10 \<and>
   claimedErrorRate exampleCatalog fanNodes fanEdges 1500 = 0"
proof -
  have "claimedErrorRate exampleCatalog fanNodes fanEdges 1500 = 0"
    unfolding claimedErrorRate_def fan_criticalPath
    by (simp add: pl_eval ex_defs failedOnPath_def findNode_def nonClientOnPath_def exampleCatalog_def
        claimedErrorTerm_def replicasOr1_def)
  then show ?thesis using fan_errorRate by simp
qed


lemma fold_invariant:
  "(\<And>x b. x \<in> set xs \<Longrightarrow> Q b \<Longrightarrow> Q (f x b)) \<Longrightarrow> Q b0 \<Longrightarrow> Q (fold f xs b0)"
  by (induction xs arbitrary: b0) auto

lemma pathLatency_snoc:
  "nodeMap_get nodes nid = Some node \<Longrightarrow>
     pathLatency cmap nodes (path @ [nid]) = pathLatency cmap nodes path + getNodeLatency cmap node"
  by (simp add: pathLatency_def getNodeLatency_def)

lemma dfs_latency:
  "snd best = pathLatency cmap nodes (fst best) \<Longrightarrow> totalLatency = pathLatency cmap nodes path \<Longrightarrow>
     snd (dfs cmap nodes adj nodeId path totalLatency visited best)
       = pathLatency cmap nodes (fst (dfs cmap nodes adj nodeId path totalLatency visited best))"
proof (induction cmap nodes adj nodeId path totalLatency visited best rule: dfs.induct)
  case (1 cmap nodes adj nodeId path totalLatency visited best)
  show ?case
  proof (cases "nodeMap_get nodes nodeId")
    case None
    then show ?thesis using "1.prems" by (subst (1 2) dfs.simps) simp
  next
    case (Some node)
    let ?latency = "totalLatency + getNodeLatency cmap node"
    let ?path' = "path @ [nodeId]"
    let ?unvisited = "filter (\<lambda>n. n \<notin> set visited) (adj_get adj nodeId)"
    have lat: "?latency = pathLatency cmap nodes ?path'"
      using "1.prems"(2) Some by (simp add: pathLatency_snoc)
    show ?thesis
    proof (cases "?unvisited = []")
      case True
      then show ?thesis using Some lat "1.prems"(1)
        by (subst (1 2) dfs.simps) (simp add: Let_def)
    next
      case False
      have "snd (fold (\<lambda>next b. dfs cmap nodes adj next ?path' ?latency (next # visited) b) ?unvisited best)
          = pathLatency cmap nodes (fst (fold (\<lambda>next b. dfs cmap nodes adj next ?path' ?latency (next # visited) b) ?unvisited best))"
      proof (rule fold_invariant[where Q = "\<lambda>b. snd b = pathLatency cmap nodes (fst b)"])
        fix x b assume "x \<in> set ?unvisited" "snd b = pathLatency cmap nodes (fst b)"
        then show "snd (dfs cmap nodes adj x ?path' ?latency (x # visited) b)
              = pathLatency cmap nodes (fst (dfs cmap nodes adj x ?path' ?latency (x # visited) b))"
          using "1.IH"[OF Some refl refl refl False _ _ lat] by blast
      next
        show "snd best = pathLatency cmap nodes (fst best)" by (rule "1.prems"(1))
      qed
      then show ?thesis using Some False
        by (subst (1 2) dfs.simps) (simp add: Let_def)
    qed
  qed
qed


lemma nodeMap_get_distinct:
  "distinct (map node_id nodes) \<Longrightarrow> n \<in> set nodes \<Longrightarrow> nodeMap_get nodes (node_id n) = Some n"
proof -
  assume d: "distinct (map node_id nodes)" and n: "n \<in> set nodes"
  have "distinct (map node_id (rev nodes))" using d by (simp add: rev_map[symmetric])
  moreover have "n \<in> set (rev nodes)" using n by simp
  ultimately have "findNode (rev nodes) (node_id n) = Some n" by (rule findNode_distinct)
  then show ?thesis by (simp add: nodeMap_get_def findNode_def)
qed

lemma firstNodeFallback_latency:
  "distinct (map node_id nodes) \<Longrightarrow>
     snd (firstNodeFallback cmap nodes) = pathLatency cmap nodes (fst (firstNodeFallback cmap nodes))"
proof (cases nodes)
  case Nil
  then show ?thesis by (simp add: firstNodeFallback_def pathLatency_def)
next
  case (Cons n0 rest)
  assume "distinct (map node_id nodes)"
  then have "nodeMap_get nodes (node_id n0) = Some n0"
    using Cons by (intro nodeMap_get_distinct) auto
  then show ?thesis using Cons
    by (simp add: firstNodeFallback_def pathLatency_def getNodeLatency_def)
qed

lemma findCriticalPath_latency:
  assumes "distinct (map node_id nodes)"
  shows "snd (findCriticalPath cmap nodes edges) = pathLatency cmap nodes (fst (findCriticalPath cmap nodes edges))"
proof -
  let ?adj = "buildAdjacencyList edges"
  let ?best = "fold (\<lambda>src b. dfs cmap nodes ?adj src [] 0 [src] b) (findSourceNodes nodes edges) ([], 0)"
  have "snd ?best = pathLatency cmap nodes (fst ?best)"
  proof (rule fold_invariant[where Q = "\<lambda>b. snd b = pathLatency cmap nodes (fst b)"])
    fix x b assume "snd (b :: string list \<times> real) = pathLatency cmap nodes (fst b)"
    then show "snd (dfs cmap nodes ?adj x [] 0 [x] b) = pathLatency cmap nodes (fst (dfs cmap nodes ?adj x [] 0 [x] b))"
      by (rule dfs_latency) (simp add: pathLatency_def)
  next
    show "snd ([] :: string list, 0 :: real) = pathLatency cmap nodes (fst ([] :: string list, 0 :: real))"
      by (simp add: pathLatency_def)
  qed
  then show ?thesis
    using firstNodeFallback_latency[OF assms, of cmap]
    by (simp add: findCriticalPath_def Let_def)
qed

lemma criticalPath_analyzeTopology:
  "criticalPath (analyzeTopology cmap nodes edges) = (if nodes = [] then [] else fst (findCriticalPath cmap nodes edges))"
  "criticalPathLatency (analyzeTopology cmap nodes edges) = (if nodes = [] then 0 else snd (findCriticalPath cmap nodes edges))"
  by (simp_all add: analyzeTopology_def Let_def split: prod.splits)

lemma criticalPathLatency_eq:
  "distinct (map node_id nodes) \<Longrightarrow>
     criticalPathLatency (analyzeTopology cmap nodes edges)
       = pathLatency cmap nodes (criticalPath (analyzeTopology cmap nodes edges))"
  by (simp add: criticalPath_analyzeTopology findCriticalPath_latency) (simp add: pathLatency_def)

lemma throughput_fold_known:
  "fold (\<lambda>nid minCapacity.
            case findNode nodes nid of
              None \<Rightarrow> minCapacity
            | Some node \<Rightarrow>
                (case cmap (componentType (data node)) of
                   None \<Rightarrow> minCapacity
                 | Some d \<Rightarrow>
                     if category d = clients then minCapacity
                     else
                       let capacity = maxThroughput d * replicasOr1 node
                       in if (case minCapacity of None \<Rightarrow> True | Some m \<Rightarrow> capacity < m)
                          then Some capacity else minCapacity))
        (dropUnknownKinds cmap nodes xs) m0
   = fold (\<lambda>nid minCapacity.
            case findNode nodes nid of
              None \<Rightarrow> minCapacity
            | Some node \<Rightarrow>
                (case cmap (componentType (data node)) of
                   None \<Rightarrow> minCapacity
                 | Some d \<Rightarrow>
                     if category d = clients then minCapacity
                     else
                       let capacity = maxThroughput d * replicasOr1 node
                       in if (case minCapacity of None \<Rightarrow> True | Some m \<Rightarrow> capacity < m)
                          then Some capacity else minCapacity))
        xs (m0 :: real option)"
proof (induction xs arbitrary: m0)
  case Nil
  show ?case by (simp add: dropUnknownKinds_def)
next
  case (Cons x xs)
  show ?case
  proof (cases "hasCatalogEntry cmap nodes x")
    case True
    then show ?thesis using Cons.IH by (simp add: dropUnknownKinds_def)
  next
    case False
    then obtain node where "findNode nodes x = Some node" "cmap (componentType (data node)) = None"
      by (auto simp: hasCatalogEntry_def split: option.splits)
    then show ?thesis using False Cons.IH by (simp add: dropUnknownKinds_def)
  qed
qed

lemma latency_fold_known:
  "fold (\<lambda>nid totalLatency.
            case findNode nodes nid of
              None \<Rightarrow> totalLatency
            | Some node \<Rightarrow>
                (case cmap (componentType (data node)) of
                   None \<Rightarrow> totalLatency
                 | Some d \<Rightarrow> totalLatency + baseLatency d))
        (dropUnknownKinds cmap nodes xs) t0
   = fold (\<lambda>nid totalLatency.
            case findNode nodes nid of
              None \<Rightarrow> totalLatency
            | Some node \<Rightarrow>
                (case cmap (componentType (data node)) of
                   None \<Rightarrow> totalLatency
                 | Some d \<Rightarrow> totalLatency + baseLatency d))
        xs (t0 :: real)"
proof (induction xs arbitrary: t0)
  case Nil
  show ?case by (simp add: dropUnknownKinds_def)
next
  case (Cons x xs)
  show ?case
  proof (cases "hasCatalogEntry cmap nodes x")
    case True
    then show ?thesis using Cons.IH by (simp add: dropUnknownKinds_def)
  next
    case False
    then obtain node where "findNode nodes x = Some node" "cmap (componentType (data node)) = None"
      by (auto simp: hasCatalogEntry_def split: option.splits)
    then show ?thesis using False Cons.IH by (simp add: dropUnknownKinds_def)
  qed
qed

lemma cost_fold_known:
  "fold (\<lambda>node total.
            case cmap (componentType (data node)) of
              None \<Rightarrow> total
            | Some d \<Rightarrow> total + costPerInstancePerMonth d * replicasOr1 node)
        (filter (\<lambda>n. cmap (componentType (data n)) \<noteq> None) nodes) t0
   = fold (\<lambda>node total.
            case cmap (componentType (data node)) of
              None \<Rightarrow> total
            | Some d \<Rightarrow> total + costPerInstancePerMonth d * replicasOr1 node)
        nodes (t0 :: real)"
  by (induction nodes arbitrary: t0) auto

lemma computeThroughput_known:
  assumes "dropUnknownKinds cmap nodes (criticalPath topology) \<noteq> []"
  shows "computeThroughput cmap nodes (topology\<lparr>criticalPath := dropUnknownKinds cmap nodes (criticalPath topology)\<rparr>) L
         = computeThroughput cmap nodes topology L"
proof -
  have "criticalPath topology \<noteq> []" using assms by (auto simp: dropUnknownKinds_def)
  then show ?thesis using assms
    by (simp add: computeThroughput_def throughput_fold_known)
qed

lemma computeLatency_known:
  assumes "dropUnknownKinds cmap nodes (criticalPath topology) \<noteq> []"
  shows "computeLatency cmap nodes (topology\<lparr>criticalPath := dropUnknownKinds cmap nodes (criticalPath topology)\<rparr>)
         = computeLatency cmap nodes topology"
proof -
  have "criticalPath topology \<noteq> []" using assms by (auto simp: dropUnknownKinds_def)
  then show ?thesis using assms
    by (simp add: computeLatency_def latency_fold_known)
qed

text \<open>
  Claim C6, amended. In a graph with unique node ids, a node whose kind has no catalog
  entry contributes nothing to the cost, capacity and base-latency aggregations:
  \<open>monthlyCost\<close> is the cost of the nodes with a catalog entry, and, when the critical
  path keeps at least one id after the ids of unknown kinds are dropped, \<open>throughput\<close>
  and \<open>latencyP50\<close> are what \<open>computeThroughput\<close> and \<open>computeLatency\<close> yield on
  that shortened path (with the hop count unchanged). \<open>criticalPathLatency\<close> is the sum
  over the critical path in which an unknown kind counts 10 ms.
\<close>

theorem unknown_kind_skipped_in_sums:
  assumes "distinct (map node_id nodes)"
  shows "monthlyCost (computeMetrics cmap nodes edges trafficLoad)
           = computeMonthlyCost cmap (filter (\<lambda>n. cmap (componentType (data n)) \<noteq> None) nodes) \<and>
         (dropUnknownKinds cmap nodes (criticalPath (analyzeTopology cmap nodes edges)) \<noteq> [] \<longrightarrow>
            throughput (computeMetrics cmap nodes edges trafficLoad)
              = computeThroughput cmap nodes
                  ((analyzeTopology cmap nodes edges)
                     \<lparr>criticalPath := dropUnknownKinds cmap nodes (criticalPath (analyzeTopology cmap nodes edges))\<rparr>)
                  trafficLoad \<and>
            latencyP50 (computeMetrics cmap nodes edges trafficLoad)
              = p50 (computeLatency cmap nodes
                  ((analyzeTopology cmap nodes edges)
                     \<lparr>criticalPath := dropUnknownKinds cmap nodes (criticalPath (analyzeTopology cmap nodes edges))\<rparr>))) \<and>
         criticalPathLatency (analyzeTopology cmap nodes edges)
           = pathLatency cmap nodes (criticalPath (analyzeTopology cmap nodes edges))"
proof (intro conjI impI)
  show "monthlyCost (computeMetrics cmap nodes edges trafficLoad)
           = computeMonthlyCost cmap (filter (\<lambda>n. cmap (componentType (data n)) \<noteq> None) nodes)"
  proof -
    have "monthlyCost (computeMetrics cmap nodes edges trafficLoad) = computeMonthlyCost cmap nodes"
      by (simp add: computeMetrics_def Let_def)
    also have "\<dots> = computeMonthlyCost cmap (filter (\<lambda>n. cmap (componentType (data n)) \<noteq> None) nodes)"
      unfolding computeMonthlyCost_def cost_fold_known ..
    finally show ?thesis .
  qed
next
  assume k: "dropUnknownKinds cmap nodes (criticalPath (analyzeTopology cmap nodes edges)) \<noteq> []"
  show "throughput (computeMetrics cmap nodes edges trafficLoad)
              = computeThroughput cmap nodes
                  ((analyzeTopology cmap nodes edges)
                     \<lparr>criticalPath := dropUnknownKinds cmap nodes (criticalPath (analyzeTopology cmap nodes edges))\<rparr>)
                  trafficLoad"
    unfolding computeThroughput_known[OF k] by (simp add: computeMetrics_def Let_def)
next
  assume k: "dropUnknownKinds cmap nodes (criticalPath (analyzeTopology cmap nodes edges)) \<noteq> []"
  show "latencyP50 (computeMetrics cmap nodes edges trafficLoad)
              = p50 (computeLatency cmap nodes
                  ((analyzeTopology cmap nodes edges)
                     \<lparr>criticalPath := dropUnknownKinds cmap nodes (criticalPath (analyzeTopology cmap nodes edges))\<rparr>))"
    unfolding computeLatency_known[OF k] by (simp add: computeMetrics_def Let_def)
next
  show "criticalPathLatency (analyzeTopology cmap nodes edges)
           = pathLatency cmap nodes (criticalPath (analyzeTopology cmap nodes edges))"
    by (rule criticalPathLatency_eq[OF assms])
qed


lemmas unknown_defs = unknownNodes_def unknownEdges_def mkNode_def mkEdge_def exampleCatalog_def

lemma unknown_topology:
  "criticalPath (analyzeTopology exampleCatalog unknownNodes unknownEdges) = [''A'', ''M'', ''B'']"
  "criticalPathLatency (analyzeTopology exampleCatalog unknownNodes unknownEdges) = 30"
  "networkHops (analyzeTopology exampleCatalog unknownNodes unknownEdges) = 2"
  by (simp_all add: topo_eval unknown_defs Let_def)

lemma unknown_drop:
  "dropUnknownKinds exampleCatalog unknownNodes [''A'', ''M'', ''B''] = [''A'', ''B'']"
  by (simp add: dropUnknownKinds_def hasCatalogEntry_def findNode_def unknown_defs)

lemma unknown_metrics:
  "throughput (computeMetrics exampleCatalog unknownNodes unknownEdges 500) = 500"
  "latencyP50 (computeMetrics exampleCatalog unknownNodes unknownEdges 500) = 24"
  "monthlyCost (computeMetrics exampleCatalog unknownNodes unknownEdges 500) = 50"
  unfolding computeMetrics_def Let_def computeThroughput_def computeLatency_def unknown_topology
  by (simp_all add: computeMonthlyCost_def
      hasCacheNode_def js_round_def findNode_def replicasOr1_def unknown_defs)

text \<open>
  Witness for C6: the chain client \<rightarrow> unknown kind \<rightarrow> server under load 500.
\<close>

theorem unknown_kind_skipped_in_sums_witness:
  "distinct (map node_id unknownNodes) \<and>
   exampleCatalog ''mystery-box'' = None \<and>
   criticalPath (analyzeTopology exampleCatalog unknownNodes unknownEdges) = [''A'', ''M'', ''B''] \<and>
   dropUnknownKinds exampleCatalog unknownNodes [''A'', ''M'', ''B''] = [''A'', ''B''] \<and>
   computeThroughput exampleCatalog unknownNodes
     ((analyzeTopology exampleCatalog unknownNodes unknownEdges)\<lparr>criticalPath := [''A'', ''B'']\<rparr>) 500 = 500 \<and>
   p50 (computeLatency exampleCatalog unknownNodes
     ((analyzeTopology exampleCatalog unknownNodes unknownEdges)\<lparr>criticalPath := [''A'', ''B'']\<rparr>)) = 24 \<and>
   computeMonthlyCost exampleCatalog
     (filter (\<lambda>n. exampleCatalog (componentType (data n)) \<noteq> None) unknownNodes) = 50 \<and>
   pathLatency exampleCatalog unknownNodes [''A'', ''M'', ''B''] = 30"
proof -
  have d: "distinct (map node_id unknownNodes)" by (simp add: unknown_defs)
  have n: "exampleCatalog ''mystery-box'' = None" by (simp add: exampleCatalog_def)
  have k: "dropUnknownKinds exampleCatalog unknownNodes
             (criticalPath (analyzeTopology exampleCatalog unknownNodes unknownEdges)) \<noteq> []"
    by (simp add: unknown_topology unknown_drop)
  from unknown_kind_skipped_in_sums[OF d, of exampleCatalog unknownEdges 500] k
  show ?thesis
    unfolding unknown_topology unknown_drop unknown_metrics
    using d n unknown_drop by simp
qed

text \<open>
  Counterexample to C6 as stated: on that chain \<open>criticalPathLatency\<close> is 30, while
  the sum without the unknown node's contribution is 20.
\<close>

theorem criticalPathLatency_counts_unknown_counterexample:
  "exampleCatalog ''mystery-box'' = None \<and>
   criticalPath (analyzeTopology exampleCatalog unknownNodes unknownEdges) = [''A'', ''M'', ''B''] \<and>
   criticalPathLatency (analyzeTopology exampleCatalog unknownNodes unknownEdges) = 30 \<and>
   claimedPathLatency exampleCatalog unknownNodes [''A'', ''M'', ''B''] = 20"
proof -
  have "claimedPathLatency exampleCatalog unknownNodes [''A'', ''M'', ''B''] = 20"
    by (simp add: claimedPathLatency_def nodeMap_get_def unknown_defs)
  then show ?thesis using unknown_topology by (simp add: exampleCatalog_def)
qed



section \<open>Validator: lemmas\<close>

















lemma fold_sum_list: "fold (\<lambda>d acc. acc + f d) ds (a::real) = a + sum_list (map f ds)"
  by (induction ds arbitrary: a) auto

lemma dim_ids:
  "dim_id (checkReliability nodes edges spofs ctx) = ''reliability''"
  "dim_id (checkPerformance nodes metrics ctx) = ''performance''"
  "dim_id (checkDataIntegrity nodes edges ctx) = ''dataIntegrity''"
  "dim_id (checkSecurity nodes edges ctx) = ''security''"
  "dim_id (checkObservability nodes ctx) = ''observability''"
  "dim_id (checkAIBestPractices nodes ctx) = ''ai''"
  by (simp_all add: checkReliability_def checkPerformance_def checkDataIntegrity_def checkSecurity_def
      checkObservability_def checkAIBestPractices_def Let_def)

lemma dimWeights:
  "dimWeight ''reliability'' = 25" "dimWeight ''performance'' = 20" "dimWeight ''dataIntegrity'' = 15"
  "dimWeight ''security'' = 15" "dimWeight ''observability'' = 10" "dimWeight ''ai'' = 15"
  by (simp_all add: dimWeight_def)

lemma validate_fields:
  "overallScore (validate nodes edges spofs metrics L pat sc) =
     js_round (fold (\<lambda>d acc. acc + score d * dimWeight (dim_id d))
                 (validateDimensions nodes edges spofs metrics (resolveValidationContext nodes edges metrics L pat sc)) 0
               / (if validateHasAI nodes then 100 else 85))"
  "grade (validate nodes edges spofs metrics L pat sc) = gradeOf (overallScore (validate nodes edges spofs metrics L pat sc))"
  "dimensions (validate nodes edges spofs metrics L pat sc) =
     validateDimensions nodes edges spofs metrics (resolveValidationContext nodes edges metrics L pat sc)"
  by (simp_all add: validate_def Let_def)

lemma validate_overallScore_eq:
  "overallScore (validate nodes edges spofs metrics trafficLoad pat sc) =
     js_round
       ((25 * score (checkReliability nodes edges spofs (resolveValidationContext nodes edges metrics trafficLoad pat sc))
         + 20 * score (checkPerformance nodes metrics (resolveValidationContext nodes edges metrics trafficLoad pat sc))
         + 15 * score (checkDataIntegrity nodes edges (resolveValidationContext nodes edges metrics trafficLoad pat sc))
         + 15 * score (checkSecurity nodes edges (resolveValidationContext nodes edges metrics trafficLoad pat sc))
         + 10 * score (checkObservability nodes (resolveValidationContext nodes edges metrics trafficLoad pat sc))
         + (if validateHasAI nodes
            then 15 * score (checkAIBestPractices nodes (resolveValidationContext nodes edges metrics trafficLoad pat sc))
            else 0))
        / (if validateHasAI nodes then 100 else 85))"
  by (simp add: validate_fields validateDimensions_def dim_ids dimWeights algebra_simps)

lemma validate_weightedAverage_eq:
  "weightedAverage (dimensions (validate nodes edges spofs metrics trafficLoad pat sc)) (validateHasAI nodes) =
       (25 * score (checkReliability nodes edges spofs (resolveValidationContext nodes edges metrics trafficLoad pat sc))
         + 20 * score (checkPerformance nodes metrics (resolveValidationContext nodes edges metrics trafficLoad pat sc))
         + 15 * score (checkDataIntegrity nodes edges (resolveValidationContext nodes edges metrics trafficLoad pat sc))
         + 15 * score (checkSecurity nodes edges (resolveValidationContext nodes edges metrics trafficLoad pat sc))
         + 10 * score (checkObservability nodes (resolveValidationContext nodes edges metrics trafficLoad pat sc))
         + (if validateHasAI nodes
            then 15 * score (checkAIBestPractices nodes (resolveValidationContext nodes edges metrics trafficLoad pat sc))
            else 0))
        / (if validateHasAI nodes then 100 else 85)"
  by (simp add: weightedAverage_def validate_fields validateDimensions_def dim_ids dimWeights algebra_simps)

text \<open>
  Claim C7, amended. For every validation run, \<open>overallScore\<close> is the weighted average
  of the dimension scores, rounded to the nearest integer, with the weights reliability 25,
  performance 20, dataIntegrity 15, security 15, observability 10 and ai 15; the divisor is
  100 and the ai dimension is present when AI components exist, and the divisor is 85 and
  the ai dimension is absent when they do not. The grade is A for a score of at least 90,
  B for at least 80, C for at least 70, D for at least 60 and F otherwise; 90 grades A and
  89 grades B.
\<close>

theorem validate_overallScore_and_grade:
  "overallScore (validate nodes edges spofs metrics trafficLoad pat sc) =
     js_round
       ((25 * score (checkReliability nodes edges spofs (resolveValidationContext nodes edges metrics trafficLoad pat sc))
         + 20 * score (checkPerformance nodes metrics (resolveValidationContext nodes edges metrics trafficLoad pat sc))
         + 15 * score (checkDataIntegrity nodes edges (resolveValidationContext nodes edges metrics trafficLoad pat sc))
         + 15 * score (checkSecurity nodes edges (resolveValidationContext nodes edges metrics trafficLoad pat sc))
         + 10 * score (checkObservability nodes (resolveValidationContext nodes edges metrics trafficLoad pat sc))
         + (if validateHasAI nodes
            then 15 * score (checkAIBestPractices nodes (resolveValidationContext nodes edges metrics trafficLoad pat sc))
            else 0))
        / (if validateHasAI nodes then 100 else 85)) \<and>
   overallScore (validate nodes edges spofs metrics trafficLoad pat sc) =
     js_round (weightedAverage (dimensions (validate nodes edges spofs metrics trafficLoad pat sc))
                               (validateHasAI nodes)) \<and>
   map dim_id (dimensions (validate nodes edges spofs metrics trafficLoad pat sc)) =
     [''reliability'', ''performance'', ''dataIntegrity'', ''security'', ''observability'']
     @ (if validateHasAI nodes then [''ai''] else []) \<and>
   grade (validate nodes edges spofs metrics trafficLoad pat sc) =
     (if overallScore (validate nodes edges spofs metrics trafficLoad pat sc) \<ge> 90 then GradeA
      else if overallScore (validate nodes edges spofs metrics trafficLoad pat sc) \<ge> 80 then GradeB
      else if overallScore (validate nodes edges spofs metrics trafficLoad pat sc) \<ge> 70 then GradeC
      else if overallScore (validate nodes edges spofs metrics trafficLoad pat sc) \<ge> 60 then GradeD
      else GradeF) \<and>
   gradeOf 90 = GradeA \<and> gradeOf 89 = GradeB"
proof (intro conjI)
  show "overallScore (validate nodes edges spofs metrics trafficLoad pat sc) =
     js_round
       ((25 * score (checkReliability nodes edges spofs (resolveValidationContext nodes edges metrics trafficLoad pat sc))
         + 20 * score (checkPerformance nodes metrics (resolveValidationContext nodes edges metrics trafficLoad pat sc))
         + 15 * score (checkDataIntegrity nodes edges (resolveValidationContext nodes edges metrics trafficLoad pat sc))
         + 15 * score (checkSecurity nodes edges (resolveValidationContext nodes edges metrics trafficLoad pat sc))
         + 10 * score (checkObservability nodes (resolveValidationContext nodes edges metrics trafficLoad pat sc))
         + (if validateHasAI nodes
            then 15 * score (checkAIBestPractices nodes (resolveValidationContext nodes edges metrics trafficLoad pat sc))
            else 0))
        / (if validateHasAI nodes then 100 else 85))"
    by (rule validate_overallScore_eq)
next
  show "overallScore (validate nodes edges spofs metrics trafficLoad pat sc) =
     js_round (weightedAverage (dimensions (validate nodes edges spofs metrics trafficLoad pat sc))
                               (validateHasAI nodes))"
    by (simp only: validate_fields weightedAverage_def fold_sum_list add_0)
next
  show "map dim_id (dimensions (validate nodes edges spofs metrics trafficLoad pat sc)) =
     [''reliability'', ''performance'', ''dataIntegrity'', ''security'', ''observability'']
     @ (if validateHasAI nodes then [''ai''] else [])"
    by (simp add: validate_fields validateDimensions_def dim_ids)
next
  show "grade (validate nodes edges spofs metrics trafficLoad pat sc) =
     (if overallScore (validate nodes edges spofs metrics trafficLoad pat sc) \<ge> 90 then GradeA
      else if overallScore (validate nodes edges spofs metrics trafficLoad pat sc) \<ge> 80 then GradeB
      else if overallScore (validate nodes edges spofs metrics trafficLoad pat sc) \<ge> 70 then GradeC
      else if overallScore (validate nodes edges spofs metrics trafficLoad pat sc) \<ge> 60 then GradeD
      else GradeF)"
    by (simp only: validate_fields(2) gradeOf_def)
next
  show "gradeOf 90 = GradeA" by (simp add: gradeOf_def)
next
  show "gradeOf 89 = GradeB" by (simp add: gradeOf_def)
qed


lemmas backup_defs = backupNodes_def backupEdges_def mkNode_def mkEdge_def

lemma backup_topology:
  "spofNodeIds (analyzeTopology exampleCatalog backupNodes backupEdges) = [''B'', ''O'']"
  "criticalPath (analyzeTopology exampleCatalog backupNodes backupEdges) = [''A'', ''B'', ''O'']"
  "networkHops (analyzeTopology exampleCatalog backupNodes backupEdges) = 2"
  by (simp_all add: topo_eval backup_defs exampleCatalog_def Let_def)

lemma backup_metrics:
  "latencyP99 (computeMetrics exampleCatalog backupNodes backupEdges 100) = 155"
  "errorRate (computeMetrics exampleCatalog backupNodes backupEdges 100) = 0"
  unfolding computeMetrics_def Let_def computeLatency_def computeErrorRate_def maxErrorRateOnPath_def backup_topology
  by (simp_all add: hasCacheNode_def js_round_def findNode_def replicasOr1_def nodeErrorRate_def
      failedOnPath_def backup_defs exampleCatalog_def)

lemma backup_context:
  "scaleTier (resolveValidationContext backupNodes backupEdges m 100 pat None) = prototype"
  "thresholds (resolveValidationContext backupNodes backupEdges m 100 pat None) = TIER_THRESHOLDS prototype"
  by (simp_all add: resolveValidationContext_def Let_def trafficToTier_def architectureComplexityTier_def
      componentMixTier_def countOf_def maxTier_def backup_defs)

lemmas validator_eval = checkReliability_def spofCheck_def dbReplicaCheck_def loadBalancerCheck_def
  connectedCheck_def checkPerformance_def checkDataIntegrity_def directDB_def checkSecurity_def
  checkObservability_def checkAIBestPractices_def dimScore_def mkCheck_def hasType_def nodesOfType_def
  dbTypes_def serverTypes_def clientTypes_def js_round_def

lemma backup_scores:
  "score (checkReliability backupNodes backupEdges [''B'', ''O'']
            (resolveValidationContext backupNodes backupEdges m 100 pat None)) = 85"
  "score (checkPerformance backupNodes (computeMetrics exampleCatalog backupNodes backupEdges 100)
            (resolveValidationContext backupNodes backupEdges m 100 pat None)) = 100"
  "score (checkDataIntegrity backupNodes backupEdges
            (resolveValidationContext backupNodes backupEdges m 100 pat None)) = 100"
  "score (checkSecurity backupNodes backupEdges
            (resolveValidationContext backupNodes backupEdges m 100 pat None)) = 95"
  "score (checkObservability backupNodes
            (resolveValidationContext backupNodes backupEdges m 100 pat None)) = 100"
  unfolding validator_eval Let_def backup_context backup_metrics
  by (simp_all add: backup_defs)

lemma backup_noAI: "\<not> validateHasAI backupNodes"
  by (simp add: validateHasAI_def isAIComponentType_def AI_COMPONENT_TYPES_def backup_defs)


lemma backup_overallScore:
  "overallScore (validate backupNodes backupEdges [''B'', ''O'']
      (computeMetrics exampleCatalog backupNodes backupEdges 100) 100 ''steady'' None) = 95"
  unfolding validate_overallScore_eq backup_scores
  by (simp add: backup_noAI js_round_def)

lemma backup_weightedAverage:
  "weightedAverage (dimensions (validate backupNodes backupEdges [''B'', ''O'']
      (computeMetrics exampleCatalog backupNodes backupEdges 100) 100 ''steady'' None))
      (validateHasAI backupNodes) = 8050 / 85"
  unfolding validate_weightedAverage_eq backup_scores
  by (simp add: backup_noAI)

text \<open>
  Witness for C7: the validation of the client, server, database and object store graph at
  load 100 scores 95 and grades A.
\<close>

theorem validate_overallScore_and_grade_witness:
  "spofNodeIds (analyzeTopology exampleCatalog backupNodes backupEdges) = [''B'', ''O''] \<and>
   overallScore (validate backupNodes backupEdges [''B'', ''O'']
      (computeMetrics exampleCatalog backupNodes backupEdges 100) 100 ''steady'' None) = 95 \<and>
   js_round (weightedAverage (dimensions (validate backupNodes backupEdges [''B'', ''O'']
      (computeMetrics exampleCatalog backupNodes backupEdges 100) 100 ''steady'' None)) False) = 95 \<and>
   map dim_id (dimensions (validate backupNodes backupEdges [''B'', ''O'']
      (computeMetrics exampleCatalog backupNodes backupEdges 100) 100 ''steady'' None))
     = [''reliability'', ''performance'', ''dataIntegrity'', ''security'', ''observability''] \<and>
   grade (validate backupNodes backupEdges [''B'', ''O'']
      (computeMetrics exampleCatalog backupNodes backupEdges 100) 100 ''steady'' None) = GradeA"
  using validate_overallScore_and_grade[of backupNodes backupEdges "[''B'', ''O'']"
          "computeMetrics exampleCatalog backupNodes backupEdges 100" 100 "''steady''" None]
  by (simp add: backup_overallScore backup_noAI backup_topology)

text \<open>
  Counterexample to C7 as stated: in that run the dimensions score 85, 100, 100, 95 and
  100, so the weighted average is 8050 / 85, which is not an integer; the overall score
  is 95.
\<close>

theorem overallScore_rounded_counterexample:
  "overallScore (validate backupNodes backupEdges
      (spofNodeIds (analyzeTopology exampleCatalog backupNodes backupEdges))
      (computeMetrics exampleCatalog backupNodes backupEdges 100) 100 ''steady'' None) = 95 \<and>
   weightedAverage (dimensions (validate backupNodes backupEdges
      (spofNodeIds (analyzeTopology exampleCatalog backupNodes backupEdges))
      (computeMetrics exampleCatalog backupNodes backupEdges 100) 100 ''steady'' None))
      (validateHasAI backupNodes) = 8050 / 85 \<and>
   (95 :: real) \<noteq> 8050 / 85"
  unfolding backup_topology
  by (simp add: backup_overallScore backup_weightedAverage)







end
